theory Spec2Isabelle
  imports Main
begin

section \<open>Values, types and hooks as the reflection layer shows them\<close>

text \<open>
  The encoder and the decoder of csvencoding walk Go values through package reflect.
  A reflected value is modelled as a pair of a type descriptor and a value tree. The
  type parameter \<open>'f\<close> stands for Go's floating point numbers, which the codec only
  hands to strconv.

  \<open>VSlice None\<close> and \<open>VMap None\<close> are the nil slice and the nil map. A map is an
  association list in the order in which the runtime iterates over it. \<open>VOther\<close> is a
  value of a kind the codec has no case for (unsigned integers, arrays, channels, ...),
  with payload 0 for the zero value of its type.
\<close>

datatype 'f val =
    VBool bool
  | VInt int
  | VFloat 'f
  | VStr string
  | VPtr "'f val option"
  | VSlice "'f val list option"
  | VMap "('f val \<times> 'f val) list option"
  | VStruct "'f val list"
  | VOther nat

text \<open>
  The four capabilities the codec looks for. A method is declared on the value receiver
  \<open>T\<close> or on the pointer receiver \<open>*T\<close>. A method with a value receiver sees the
  value; one with a pointer receiver sees \<open>VPtr p\<close>. A setter returns the receiver as the
  call leaves it, and the error it reports. Hook errors are their messages.
\<close>

datatype recv = ByValue | ByPointer

record 'f hooks =
  GetCSV :: "(recv \<times> ('f val \<Rightarrow> string + string list)) option"
  MarshalText :: "(recv \<times> ('f val \<Rightarrow> string + string)) option"
  SetCSV :: "(recv \<times> (string list \<Rightarrow> 'f val \<Rightarrow> 'f val \<times> string option)) option"
  UnmarshalText :: "(recv \<times> (string \<Rightarrow> 'f val \<Rightarrow> 'f val \<times> string option)) option"

definition noHooks :: "'f hooks" where
  "noHooks = \<lparr>GetCSV = None, MarshalText = None, SetCSV = None, UnmarshalText = None\<rparr>"

text \<open>
  \<open>Type n h k\<close> is a type with name \<open>n\<close> (empty for an unnamed type, as
  \<open>Type().Name()\<close> reports it), declared methods \<open>h\<close> and kind \<open>k\<close>. A struct field
  carries what reflect.StructField gives: Name, the value of the csv key of its tag,
  PkgPath (empty for an exported field), Anonymous, and its type.
\<close>

datatype 'f gotype = Type (tname: string) (methods: "'f hooks") (kind: "'f gokind")
and 'f gokind =
    KBool | KString | KInt | KInt8 | KInt16 | KInt32 | KInt64 | KFloat32 | KFloat64
  | KPtr "'f gotype"
  | KSlice "'f gotype"
  | KMap "'f gotype" "'f gotype"
  | KStruct "'f field list"
  | KOther
and 'f field =
    Field (Name: string) (csvTag: string) (PkgPath: string) (Anonymous: bool)
          (ftype: "'f gotype")

text \<open>The unnamed built-in types, and the pointer type \<open>*T\<close>.\<close>

definition plain :: "'f gokind \<Rightarrow> 'f gotype" where
  "plain k = Type [] noHooks k"

definition ptrTo :: "'f gotype \<Rightarrow> 'f gotype" where
  "ptrTo t = plain (KPtr t)"

fun isPtr :: "'f gotype \<Rightarrow> bool" where
  "isPtr (Type n h (KPtr e)) = True"
| "isPtr t = False"

section \<open>Errors and panics\<close>

text \<open>
  The errors of strconv are \<open>NumError\<close> with the function, the text and the cause. The
  messages built with fmt.Errorf are kept as their parts, so that the wrapping stays
  visible: \<open>StructFieldErr name value e\<close> is
  \<^verbatim>\<open>struct field `name`: `value`: e\<close>. \<open>HookErr\<close> is an error returned by a method of the
  caller's type, \<open>IOErr\<close> one of the csv reader or writer (io.EOF among them).
\<close>

datatype numerr = ErrSyntax | ErrRange | ErrBase | ErrBitSize

datatype 'f error =
    HookErr string
  | NumError string string numerr
  | CantMarshal "'f val" "'f gotype"
  | CantUnmarshal "'f gotype"
  | SliceElementErr "'f val" "'f error"
  | MapKeyErr "'f val" "'f error"
  | MapValueErr "'f val" "'f error"
  | StructFieldErr string "'f val" "'f error"
  | IOErr string

text \<open>
  A run-time panic aborts the call; it is not an error value. \<open>IllTyped\<close> marks a value
  tree that does not have the shape of its type descriptor, which the Go type system
  excludes.
\<close>

datatype panic =
    NilDereference
  | InvalidValue
  | NotAStruct
  | Unsettable
  | ReadOnlyInterface
  | TypeAssertion
  | IndexOutOfRange
  | IllTyped

datatype 'a res = Panic panic | Done 'a

section \<open>The library functions the codec calls\<close>

subsection \<open>Package strings\<close>

text \<open>
  \<open>Join elems sep\<close> is strings.Join. \<open>Split s c\<close> is strings.Split with the
  one-character separator \<open>c\<close>: it returns at least one part. \<open>SplitN2 s c\<close> is
  strings.SplitN with that separator and the count 2: the text before the first
  separator and, when there is one, the rest. \<open>ToLower\<close> lowers the ASCII letters,
  which is strings.ToLower on ASCII identifiers.
\<close>

fun Join :: "string list \<Rightarrow> string \<Rightarrow> string" where
  "Join [] sep = []"
| "Join [x] sep = x"
| "Join (x # y # ys) sep = x @ sep @ Join (y # ys) sep"

fun Split :: "string \<Rightarrow> char \<Rightarrow> string list" where
  "Split [] c = [[]]"
| "Split (x # xs) c =
     (if x = c then [] # Split xs c
      else (case Split xs c of [] \<Rightarrow> [[x]] | p # ps \<Rightarrow> (x # p) # ps))"

fun SplitN2 :: "string \<Rightarrow> char \<Rightarrow> string list" where
  "SplitN2 [] c = [[]]"
| "SplitN2 (x # xs) c =
     (if x = c then [[], xs]
      else (case SplitN2 xs c of [] \<Rightarrow> [[x]] | p # ps \<Rightarrow> (x # p) # ps))"

definition toLowerChar :: "char \<Rightarrow> char" where
  "toLowerChar c =
     (case map_of (zip ''ABCDEFGHIJKLMNOPQRSTUVWXYZ'' ''abcdefghijklmnopqrstuvwxyz'') c of
        Some l \<Rightarrow> l
      | None \<Rightarrow> c)"

definition ToLower :: "string \<Rightarrow> string" where
  "ToLower s = map toLowerChar s"

subsection \<open>Package strconv\<close>

text \<open>
  FormatBool and ParseBool, FormatInt in a base from 2 to 36, and ParseUint and ParseInt
  with their base prefixes, digit separators and range checks. \<open>lower c\<close> is the byte
  \<open>c | 0x20\<close>. The accumulator of
  ParseUint is a uint64: its products and sums are taken modulo \<open>2 ^ 64\<close>. IntSize is
  that of a 64-bit platform.
\<close>

definition FormatBool :: "bool \<Rightarrow> string" where
  "FormatBool b = (if b then ''true'' else ''false'')"

definition ParseBool :: "string \<Rightarrow> 'f error + bool" where
  "ParseBool str =
     (if str \<in> set [''1'', ''t'', ''T'', ''TRUE'', ''true'', ''True''] then Inr True
      else if str \<in> set [''0'', ''f'', ''F'', ''FALSE'', ''false'', ''False''] then Inr False
      else Inl (NumError ''ParseBool'' str ErrSyntax))"

definition digitChars :: string where
  "digitChars = ''0123456789abcdefghijklmnopqrstuvwxyz''"

function formatBits :: "nat \<Rightarrow> nat \<Rightarrow> string" where
  "formatBits u base =
     (if 2 \<le> base \<and> base \<le> u
      then formatBits (u div base) base @ [digitChars ! (u mod base)]
      else [digitChars ! u])"
  by pat_completeness auto
termination
  by (relation "measure (\<lambda>(u, base). u)") auto

definition FormatInt :: "int \<Rightarrow> nat \<Rightarrow> string" where
  "FormatInt i base =
     (if i < 0 then CHR ''-'' # formatBits (nat (- i)) base else formatBits (nat i) base)"

definition IntSize :: nat where
  "IntSize = 64"

definition lower :: "char \<Rightarrow> nat" where
  "lower c = or (of_char c :: nat) 32"

definition isDigit :: "char \<Rightarrow> bool" where
  "isDigit c = (48 \<le> (of_char c :: nat) \<and> (of_char c :: nat) \<le> 57)"

definition isLetter :: "char \<Rightarrow> bool" where
  "isLetter c = (97 \<le> lower c \<and> lower c \<le> 122)"

text \<open>
  underscoreOK: \<open>saw\<close> is the last character class seen, \<open>CHR ''^''\<close> at the start,
  \<open>CHR ''0''\<close> for a digit or a base prefix, \<open>CHR ''_''\<close> for an underscore and
  \<open>CHR ''!''\<close> for anything else.
\<close>

fun underscoreLoop :: "bool \<Rightarrow> char \<Rightarrow> string \<Rightarrow> bool" where
  "underscoreLoop hex saw [] = (saw \<noteq> CHR ''_'')"
| "underscoreLoop hex saw (c # cs) =
     (if isDigit c \<or> (hex \<and> 97 \<le> lower c \<and> lower c \<le> 102)
      then underscoreLoop hex (CHR ''0'') cs
      else if c = CHR ''_'' then (if saw \<noteq> CHR ''0'' then False else underscoreLoop hex (CHR ''_'') cs)
      else if saw = CHR ''_'' then False
      else underscoreLoop hex (CHR ''!'') cs)"

definition underscoreOK :: "string \<Rightarrow> bool" where
  "underscoreOK s0 =
     (let s = (if 1 \<le> length s0 \<and> (hd s0 = CHR ''-'' \<or> hd s0 = CHR ''+'') then tl s0 else s0)
      in if 2 \<le> length s \<and> hd s = CHR ''0'' \<and>
            (lower (s ! 1) = of_char (CHR ''b'') \<or> lower (s ! 1) = of_char (CHR ''o'') \<or>
             lower (s ! 1) = of_char (CHR ''x''))
         then underscoreLoop (lower (s ! 1) = of_char (CHR ''x'')) (CHR ''0'') (drop 2 s)
         else underscoreLoop False (CHR ''^'') s)"

text \<open>
  The digit loop of ParseUint. \<open>digitOf c\<close> is the value that its switch gives the
  character, if any. The loop returns, as the source does, the first failure met from
  the left: a syntax error with value 0, or a range error with the value \<open>maxVal\<close>. The
  flag tells whether an underscore was skipped.
\<close>

definition digitOf :: "char \<Rightarrow> nat option" where
  "digitOf c =
     (if isDigit c then Some ((of_char c :: nat) - 48)
      else if isLetter c then Some (lower c - 97 + 10)
      else None)"

fun parseDigits :: "nat \<Rightarrow> bool \<Rightarrow> nat \<Rightarrow> nat \<Rightarrow> nat \<Rightarrow> bool \<Rightarrow> string \<Rightarrow> (nat \<times> numerr option) \<times> bool" where
  "parseDigits base base0 cutoff maxVal n us [] = ((n, None), us)"
| "parseDigits base base0 cutoff maxVal n us (c # cs) =
     (if c = CHR ''_'' \<and> base0 then parseDigits base base0 cutoff maxVal n True cs
      else case digitOf c of
        None \<Rightarrow> ((0, Some ErrSyntax), us)
      | Some d \<Rightarrow>
          if base \<le> d then ((0, Some ErrSyntax), us)
          else if cutoff \<le> n then ((maxVal, Some ErrRange), us)
          else
            let m = (n * base) mod 2 ^ 64; n1 = (m + d) mod 2 ^ 64
            in if n1 < m \<or> maxVal < n1 then ((maxVal, Some ErrRange), us)
               else parseDigits base base0 cutoff maxVal n1 us cs)"

definition ParseUint :: "string \<Rightarrow> nat \<Rightarrow> nat \<Rightarrow> nat \<times> numerr option" where
  "ParseUint s0 base bitSize =
     (if s0 = [] then (0, Some ErrSyntax)
      else if \<not> (base = 0 \<or> (2 \<le> base \<and> base \<le> 36)) then (0, Some ErrBase)
      else
        let base0 = (base = 0);
            (b, s) =
              (if base0 then
                 (if hd s0 = CHR ''0'' then
                    (if 3 \<le> length s0 \<and> lower (s0 ! 1) = of_char (CHR ''b'') then (2, drop 2 s0)
                     else if 3 \<le> length s0 \<and> lower (s0 ! 1) = of_char (CHR ''o'') then (8, drop 2 s0)
                     else if 3 \<le> length s0 \<and> lower (s0 ! 1) = of_char (CHR ''x'') then (16, drop 2 s0)
                     else (8, drop 1 s0))
                  else (10, s0))
               else (base, s0))
        in if 64 < bitSize then (0, Some ErrBitSize)
           else
             let bits = (if bitSize = 0 then IntSize else bitSize);
                 cutoff = (2 ^ 64 - 1) div b + 1;
                 maxVal = 2 ^ bits - 1;
                 (r, underscores) = parseDigits b base0 cutoff maxVal 0 False s
             in (case snd r of
                   Some e \<Rightarrow> r
                 | None \<Rightarrow> if underscores \<and> \<not> underscoreOK s0 then (0, Some ErrSyntax) else r))"

definition ParseInt :: "string \<Rightarrow> nat \<Rightarrow> nat \<Rightarrow> 'f error + int" where
  "ParseInt s0 base bitSize =
     (if s0 = [] then Inl (NumError ''ParseInt'' s0 ErrSyntax)
      else
        let neg = (hd s0 = CHR ''-'');
            s = (if hd s0 = CHR ''+'' \<or> hd s0 = CHR ''-'' then tl s0 else s0);
            (un, err) = ParseUint s base bitSize
        in if err \<noteq> None \<and> err \<noteq> Some ErrRange then Inl (NumError ''ParseInt'' s0 (the err))
           else
             let bits = (if bitSize = 0 then IntSize else bitSize);
                 cutoff = 2 ^ (bits - 1)
             in if \<not> neg \<and> cutoff \<le> un then Inl (NumError ''ParseInt'' s0 ErrRange)
                else if neg \<and> cutoff < un then Inl (NumError ''ParseInt'' s0 ErrRange)
                else Inr (if neg then - int un else int un))"

text \<open>
  The floating point functions of strconv and the two comparisons the reflection layer
  makes on floats are parameters: \<open>FormatFloat f fmt prec bitSize\<close>,
  \<open>ParseFloat s bitSize\<close>, the float \<open>0\<close>, and \<open>==\<close> on floats.
\<close>

record 'f floats =
  FormatFloat :: "'f \<Rightarrow> char \<Rightarrow> int \<Rightarrow> nat \<Rightarrow> string"
  ParseFloat :: "string \<Rightarrow> nat \<Rightarrow> numerr + 'f"
  FloatZero :: "'f"
  FloatEq :: "'f \<Rightarrow> 'f \<Rightarrow> bool"

section \<open>Zero values and hook detection\<close>

text \<open>\<open>zero F t\<close> is \<open>reflect.Zero(t)\<close>, and a fresh \<open>reflect.New(t).Elem()\<close>.\<close>

primrec zero :: "'f floats \<Rightarrow> 'f gotype \<Rightarrow> 'f val"
  and zeroKind :: "'f floats \<Rightarrow> 'f gokind \<Rightarrow> 'f val"
  and zeroField :: "'f floats \<Rightarrow> 'f field \<Rightarrow> 'f val" where
  "zero F (Type n h k) = zeroKind F k"
| "zeroKind F KBool = VBool False"
| "zeroKind F KString = VStr []"
| "zeroKind F KInt = VInt 0"
| "zeroKind F KInt8 = VInt 0"
| "zeroKind F KInt16 = VInt 0"
| "zeroKind F KInt32 = VInt 0"
| "zeroKind F KInt64 = VInt 0"
| "zeroKind F KFloat32 = VFloat (FloatZero F)"
| "zeroKind F KFloat64 = VFloat (FloatZero F)"
| "zeroKind F (KPtr e) = VPtr None"
| "zeroKind F (KSlice e) = VSlice None"
| "zeroKind F (KMap kt vt) = VMap None"
| "zeroKind F (KStruct fs) = VStruct (map (zeroField F) fs)"
| "zeroKind F KOther = VOther 0"
| "zeroField F (Field n tg p a t) = zero F t"

text \<open>
  \<open>isZero F v\<close> is \<open>reflect.DeepEqual(v.Interface(), reflect.Zero(v.Type()).Interface())\<close>:
  a nil pointer, slice or map equals only a nil one, floats are compared with \<open>==\<close>,
  structs field by field.
\<close>

fun isZero :: "'f floats \<Rightarrow> 'f val \<Rightarrow> bool" where
  "isZero F (VBool b) = (\<not> b)"
| "isZero F (VInt i) = (i = 0)"
| "isZero F (VFloat x) = FloatEq F x (FloatZero F)"
| "isZero F (VStr s) = (s = [])"
| "isZero F (VPtr p) = (p = None)"
| "isZero F (VSlice xs) = (xs = None)"
| "isZero F (VMap m) = (m = None)"
| "isZero F (VStruct vs) = list_all (isZero F) vs"
| "isZero F (VOther n) = (n = 0)"

text \<open>
  The method set that a type assertion \<open>v.Interface().(I)\<close> consults. The selector
  \<open>sel\<close> picks the method of the interface \<open>I\<close>. An unnamed pointer type \<open>*T\<close> has
  the methods of \<open>T\<close> with either receiver, unless \<open>T\<close> is itself a pointer; any other
  type has its methods with a value receiver only.
\<close>

definition lookupMethod :: "('f hooks \<Rightarrow> (recv \<times> 'm) option) \<Rightarrow> 'f gotype \<Rightarrow> (recv \<times> 'm) option" where
  "lookupMethod sel t =
     (case kind t of
        KPtr e \<Rightarrow> (if isPtr e \<or> tname t \<noteq> [] then None else sel (methods e))
      | _ \<Rightarrow> (case sel (methods t) of
                Some (ByValue, m) \<Rightarrow> Some (ByValue, m)
              | _ \<Rightarrow> None))"

text \<open>
  Calling a method through the interface value that holds \<open>v\<close>: a value-receiver method
  reached through a pointer dereferences it, and panics on nil.
\<close>

definition callOn :: "recv \<Rightarrow> ('f val \<Rightarrow> 'a) \<Rightarrow> 'f val \<Rightarrow> 'a res" where
  "callOn r m v =
     (case r of
        ByPointer \<Rightarrow> Done (m v)
      | ByValue \<Rightarrow> (case v of
                     VPtr None \<Rightarrow> Panic NilDereference
                   | VPtr (Some x) \<Rightarrow> Done (m x)
                   | _ \<Rightarrow> Done (m v)))"

text \<open>
  The receiver the four \<open>indirect\<close> functions start from: the address of \<open>v\<close> when
  \<open>v\<close> is not a pointer, its type is named and \<open>v.CanAddr()\<close>; \<open>v\<close> itself otherwise.
\<close>

definition indirect :: "bool \<Rightarrow> 'f gotype \<Rightarrow> 'f val \<Rightarrow> 'f gotype \<times> 'f val" where
  "indirect addr t v =
     (if \<not> isPtr t \<and> tname t \<noteq> [] \<and> addr then (ptrTo t, VPtr (Some v)) else (t, v))"

text \<open>
  A Getter or TextMarshaler interface value is represented by what its one method
  returns when called.
\<close>

definition indirectGetter :: "bool \<Rightarrow> 'f gotype \<Rightarrow> 'f val \<Rightarrow> (string + string list) res option" where
  "indirectGetter addr t v =
     (case indirect addr t v of (t', v') \<Rightarrow>
        (case lookupMethod GetCSV t' of
           Some (r, m) \<Rightarrow> Some (callOn r m v')
         | None \<Rightarrow> None))"

definition indirectTextMarshaler :: "bool \<Rightarrow> 'f gotype \<Rightarrow> 'f val \<Rightarrow> (string + string) res option" where
  "indirectTextMarshaler addr t v =
     (case indirect addr t v of (t', v') \<Rightarrow>
        (case lookupMethod MarshalText t' of
           Some (r, m) \<Rightarrow> Some (callOn r m v')
         | None \<Rightarrow> None))"

section \<open>The encoder (encode.go)\<close>

text \<open>
  The Encoder struct without its writer \<open>w\<close>: the writer is a pointer to a csv.Writer,
  whose state is passed beside the encoder.
\<close>

record 'f Encoder =
  err :: "'f error option"
  EmptyValue :: string
  NilValue :: string

text \<open>
  Modelled from the spec: the constants DefaultEmptyValue and DefaultNilValue, declared
  outside the two source files; section 3 of the specification gives the empty string and
  \<open>NULL\<close>.
\<close>

definition DefaultEmptyValue :: string where
  "DefaultEmptyValue = []"

definition DefaultNilValue :: string where
  "DefaultNilValue = ''NULL''"

text \<open>
  The csv.Writer as the encoder uses it: Write appends a row or reports the writer's
  error, and Flush has no result. NewEncoder takes the writer and returns the encoder.
\<close>

record Writer =
  rows :: "string list list"
  failing :: "string option"

definition Write :: "Writer \<Rightarrow> string list \<Rightarrow> Writer \<times> 'f error option" where
  "Write w record =
     (case failing w of
        Some m \<Rightarrow> (w, Some (IOErr m))
      | None \<Rightarrow> (w\<lparr>rows := rows w @ [record]\<rparr>, None))"

definition NewEncoder :: "'f Encoder" where
  "NewEncoder = \<lparr>Encoder.err = None, EmptyValue = DefaultEmptyValue, NilValue = DefaultNilValue\<rparr>"

text \<open>The cells for a nil pointer to a struct: one NilValue for each field with an empty PkgPath.\<close>

fun nilCells :: "string \<Rightarrow> 'f field list \<Rightarrow> string list" where
  "nilCells nv [] = []"
| "nilCells nv (f # fs) = (if PkgPath f = [] then nv # nilCells nv fs else nilCells nv fs)"

text \<open>The size of a type bounds the sizes of its components: the measure of the recursions below.\<close>

lemma size_kind_less:
  "kind t = KPtr e \<Longrightarrow> size e < size t"
  "kind t = KSlice e \<Longrightarrow> size e < size t"
  "kind t = KMap kt vt \<Longrightarrow> size kt + size vt < size t"
  "kind t = KStruct fs \<Longrightarrow> size_list size fs < size t"
  by (cases t; simp)+

lemma size_ftype_less: "size (ftype f) < Suc (size f + n)"
  by (cases f) simp

text \<open>
  \<open>marshal F enc ro addr t v omitEmpty\<close> is \<open>enc.marshal(reflectValue, omitEmpty)\<close> for
  the reflected value \<open>(t, v)\<close>; \<open>addr\<close> is \<open>CanAddr()\<close>, and \<open>ro\<close> says that the value
  was reached through an unexported field, on which \<open>Interface()\<close> panics.
  \<open>marshalValue\<close> is the part of the function after the pointer has been followed, and
  the three loops are those of the slice, map and struct cases. Elements of a slice are
  addressable, keys and values of a map are not, a field is when its struct is.
\<close>

function (sequential) marshal :: "'f floats \<Rightarrow> 'f Encoder \<Rightarrow> bool \<Rightarrow> bool \<Rightarrow> 'f gotype \<Rightarrow> 'f val \<Rightarrow> bool \<Rightarrow> ('f error + string list) res"
  and marshalValue :: "'f floats \<Rightarrow> 'f Encoder \<Rightarrow> bool \<Rightarrow> 'f gotype \<Rightarrow> 'f val \<Rightarrow> bool \<Rightarrow> ('f error + string list) res"
  and marshalSlice :: "'f floats \<Rightarrow> 'f Encoder \<Rightarrow> 'f gotype \<Rightarrow> 'f val list \<Rightarrow> ('f error + string list) res"
  and marshalMap :: "'f floats \<Rightarrow> 'f Encoder \<Rightarrow> 'f gotype \<Rightarrow> 'f gotype \<Rightarrow> ('f val \<times> 'f val) list \<Rightarrow> ('f error + string list) res"
  and marshalStruct :: "'f floats \<Rightarrow> 'f Encoder \<Rightarrow> bool \<Rightarrow> 'f field list \<Rightarrow> 'f val list \<Rightarrow> ('f error + string list) res"
where
  "marshal F enc ro addr t v omitEmpty =
     (if ro then Panic ReadOnlyInterface
      else case indirectGetter addr t v of
        Some getter \<Rightarrow>
          (case getter of
             Panic p \<Rightarrow> Panic p
           | Done (Inl m) \<Rightarrow> Done (Inl (HookErr m))
           | Done (Inr s) \<Rightarrow> Done (Inr s))
      | None \<Rightarrow>
      (case indirectTextMarshaler addr t v of
        Some textMarshaler \<Rightarrow>
          (case textMarshaler of
             Panic p \<Rightarrow> Panic p
           | Done (Inl m) \<Rightarrow> Done (Inl (HookErr m))
           | Done (Inr b) \<Rightarrow> Done (Inr [b]))
      | None \<Rightarrow>
      (case kind t of
        KPtr e \<Rightarrow>
          (case v of
             VPtr None \<Rightarrow>
               (case kind e of
                  KStruct fs \<Rightarrow> Done (Inr (nilCells (Encoder.NilValue enc) fs))
                | _ \<Rightarrow> Done (Inr [Encoder.NilValue enc]))
           | VPtr (Some x) \<Rightarrow> marshalValue F enc True e x omitEmpty
           | _ \<Rightarrow> Panic IllTyped)
      | _ \<Rightarrow> marshalValue F enc addr t v omitEmpty)))"
| "marshalValue F enc addr t v omitEmpty =
     (if isZero F v \<and> omitEmpty then Done (Inr [Encoder.EmptyValue enc])
      else case kind t of
        KBool \<Rightarrow> (case v of VBool b \<Rightarrow> Done (Inr [FormatBool b]) | _ \<Rightarrow> Panic IllTyped)
      | KString \<Rightarrow> (case v of VStr s \<Rightarrow> Done (Inr [s]) | _ \<Rightarrow> Panic IllTyped)
      | KInt \<Rightarrow> (case v of VInt i \<Rightarrow> Done (Inr [FormatInt i 10]) | _ \<Rightarrow> Panic IllTyped)
      | KInt8 \<Rightarrow> (case v of VInt i \<Rightarrow> Done (Inr [FormatInt i 10]) | _ \<Rightarrow> Panic IllTyped)
      | KInt16 \<Rightarrow> (case v of VInt i \<Rightarrow> Done (Inr [FormatInt i 10]) | _ \<Rightarrow> Panic IllTyped)
      | KInt32 \<Rightarrow> (case v of VInt i \<Rightarrow> Done (Inr [FormatInt i 10]) | _ \<Rightarrow> Panic IllTyped)
      | KInt64 \<Rightarrow> (case v of VInt i \<Rightarrow> Done (Inr [FormatInt i 10]) | _ \<Rightarrow> Panic IllTyped)
      | KFloat32 \<Rightarrow>
          (case v of VFloat x \<Rightarrow> Done (Inr [FormatFloat F x (CHR ''f'') (- 1) 64]) | _ \<Rightarrow> Panic IllTyped)
      | KFloat64 \<Rightarrow>
          (case v of VFloat x \<Rightarrow> Done (Inr [FormatFloat F x (CHR ''f'') (- 1) 64]) | _ \<Rightarrow> Panic IllTyped)
      | KSlice e \<Rightarrow>
          (case v of
             VSlice xs \<Rightarrow>
               (case marshalSlice F enc e (case xs of None \<Rightarrow> [] | Some l \<Rightarrow> l) of
                  Panic p \<Rightarrow> Panic p
                | Done (Inl er) \<Rightarrow> Done (Inl er)
                | Done (Inr output) \<Rightarrow> Done (Inr [Join output '','']))
           | _ \<Rightarrow> Panic IllTyped)
      | KMap kt vt \<Rightarrow>
          (case v of
             VMap m \<Rightarrow>
               (case marshalMap F enc kt vt (case m of None \<Rightarrow> [] | Some l \<Rightarrow> l) of
                  Panic p \<Rightarrow> Panic p
                | Done (Inl er) \<Rightarrow> Done (Inl er)
                | Done (Inr output) \<Rightarrow> Done (Inr [Join output '','']))
           | _ \<Rightarrow> Panic IllTyped)
      | KStruct fs \<Rightarrow>
          (case v of VStruct vs \<Rightarrow> marshalStruct F enc addr fs vs | _ \<Rightarrow> Panic IllTyped)
      | _ \<Rightarrow> Done (Inl (CantMarshal v t)))"
| "marshalSlice F enc e [] = Done (Inr [])"
| "marshalSlice F enc e (elementValue # xs) =
     (case marshal F enc False True e elementValue False of
        Panic p \<Rightarrow> Panic p
      | Done (Inl er) \<Rightarrow> Done (Inl (SliceElementErr elementValue er))
      | Done (Inr elementOutput) \<Rightarrow>
          (case marshalSlice F enc e xs of
             Panic p \<Rightarrow> Panic p
           | Done (Inl er) \<Rightarrow> Done (Inl er)
           | Done (Inr output) \<Rightarrow> Done (Inr (Join elementOutput '','' # output))))"
| "marshalMap F enc kt vt [] = Done (Inr [])"
| "marshalMap F enc kt vt ((keyValue, elementValue) # m) =
     (case marshal F enc False False kt keyValue False of
        Panic p \<Rightarrow> Panic p
      | Done (Inl er) \<Rightarrow> Done (Inl (MapKeyErr keyValue er))
      | Done (Inr keyOutput) \<Rightarrow>
          (case marshal F enc False False vt elementValue False of
             Panic p \<Rightarrow> Panic p
           | Done (Inl er) \<Rightarrow> Done (Inl (MapValueErr elementValue er))
           | Done (Inr valueOutput) \<Rightarrow>
               (case marshalMap F enc kt vt m of
                  Panic p \<Rightarrow> Panic p
                | Done (Inl er) \<Rightarrow> Done (Inl er)
                | Done (Inr output) \<Rightarrow>
                    Done (Inr ((Join keyOutput '','' @ '':'' @ Join valueOutput '','') # output)))))"
| "marshalStruct F enc addr [] vs = Done (Inr [])"
| "marshalStruct F enc addr (field # fs) [] = Panic IllTyped"
| "marshalStruct F enc addr (field # fs) (fieldValue # vs) =
     (let key = Split (csvTag field) (CHR '','');
          fieldName = hd key;
          omitEmpty = (1 < length key \<and> key ! 1 = ''omitEmpty'')
      in if fieldName = ''-'' \<or> (PkgPath field \<noteq> [] \<and> \<not> Anonymous field)
         then marshalStruct F enc addr fs vs
         else case marshal F enc (PkgPath field \<noteq> []) addr (ftype field) fieldValue omitEmpty of
                Panic p \<Rightarrow> Panic p
              | Done (Inl er) \<Rightarrow> Done (Inl (StructFieldErr (Name field) fieldValue er))
              | Done (Inr fieldOutput) \<Rightarrow>
                  (case marshalStruct F enc addr fs vs of
                     Panic p \<Rightarrow> Panic p
                   | Done (Inl er) \<Rightarrow> Done (Inl er)
                   | Done (Inr output) \<Rightarrow> Done (Inr (fieldOutput @ output))))"
  by pat_completeness auto
termination
  apply (relation "inv_image (less_than <*lex*> less_than)
     (\<lambda>x. case x of
        Inl (Inl (F, enc, ro, addr, t, v, omitEmpty)) \<Rightarrow> (size t, 2::nat)
      | Inl (Inr (F, enc, addr, t, v, omitEmpty)) \<Rightarrow> (size t, 1)
      | Inr (Inl (F, enc, e, xs)) \<Rightarrow> (size e, 3 + length xs)
      | Inr (Inr (Inl (F, enc, kt, vt, m))) \<Rightarrow> (size kt + size vt, 3 + length m)
      | Inr (Inr (Inr (F, enc, addr, fs, vs))) \<Rightarrow> (size_list size fs, 3 + length fs))")
  apply (simp_all add: size_kind_less size_ftype_less)
  apply auto
  done

text \<open>
  \<open>Encode F enc w i\<close> is \<open>enc.Encode(i)\<close> on an encoder whose writer is in state
  \<open>w\<close>. The method has the value receiver \<open>(enc Encoder)\<close>: it works on the copy
  \<open>enc'\<close> of the caller's encoder, so its assignments to \<open>enc.err\<close> end with the call.
  The result is the returned error, the caller's encoder after the call, which is
  \<open>enc\<close> as it was, and the writer's new state. \<open>i\<close> is the interface value:
  \<open>None\<close> for nil, or a type and a value, which \<open>reflect.ValueOf\<close> gives as not
  addressable.
\<close>

definition Encode :: "'f floats \<Rightarrow> 'f Encoder \<Rightarrow> Writer \<Rightarrow> ('f gotype \<times> 'f val) option \<Rightarrow> ('f error option \<times> 'f Encoder \<times> Writer) res" where
  "Encode F enc w i =
     (if Encoder.err enc \<noteq> None then Done (Encoder.err enc, enc, w)
      else case i of
        None \<Rightarrow> Panic InvalidValue
      | Some (t, v) \<Rightarrow>
          (case marshal F enc False False t v False of
             Panic p \<Rightarrow> Panic p
           | Done (Inl er) \<Rightarrow>
               (let enc' = enc\<lparr>Encoder.err := Some er\<rparr> in Done (Encoder.err enc', enc, w))
           | Done (Inr output) \<Rightarrow>
               (case Write w output of (w', er) \<Rightarrow>
                  (let enc' = enc\<lparr>Encoder.err := er\<rparr> in Done (Encoder.err enc', enc, w')))))"

section \<open>The decoder (decode.go)\<close>

text \<open>
  The Decoder struct without its reader \<open>r\<close>. The csv.Reader is the list of the results
  its next calls of Read will give, each a record and an error; when the list is used
  up, Read reports io.EOF.
\<close>

record 'f Decoder =
  header :: "string list"
  err :: "'f error option"
  EmptyValue :: string
  NilValue :: string

type_synonym 'f Reader = "(string list \<times> 'f error option) list"

definition Read :: "'f Reader \<Rightarrow> (string list \<times> 'f error option) \<times> 'f Reader" where
  "Read r = (case r of [] \<Rightarrow> (([], Some (IOErr ''EOF'')), []) | x # xs \<Rightarrow> (x, xs))"

definition NewDecoder :: "'f Reader \<Rightarrow> 'f Decoder \<times> 'f Reader" where
  "NewDecoder r =
     (case Read r of ((h, er), r') \<Rightarrow>
        (\<lparr>header = h, err = er, EmptyValue = DefaultEmptyValue, NilValue = DefaultNilValue\<rparr>, r'))"

text \<open>
  The value of a field after a setter has run. Only a method with a pointer receiver can
  change what it was called on: \<open>received old rv\<close> is the pointee it leaves behind.
  \<open>took\<close> says that the method was called on the address of the field.
\<close>

definition addressed :: "bool \<Rightarrow> 'f gotype \<Rightarrow> bool" where
  "addressed addr t = (\<not> isPtr t \<and> tname t \<noteq> [] \<and> addr)"

definition received :: "'f val \<Rightarrow> 'f val \<Rightarrow> 'f val" where
  "received old rv = (case rv of VPtr (Some x) \<Rightarrow> x | _ \<Rightarrow> old)"

definition fieldAfter :: "bool \<Rightarrow> recv \<Rightarrow> 'f val \<Rightarrow> 'f val \<Rightarrow> 'f val" where
  "fieldAfter took r v rv =
     (case r of
        ByValue \<Rightarrow> v
      | ByPointer \<Rightarrow>
          (if took then received v rv
           else (case v of VPtr (Some x) \<Rightarrow> VPtr (Some (received x rv)) | _ \<Rightarrow> v)))"

text \<open>
  A Setter or TextUnmarshaler interface value is represented by its method as a
  function of the argument, giving the field as the call leaves it and the error.
\<close>

definition indirectSetter :: "bool \<Rightarrow> 'f gotype \<Rightarrow> 'f val \<Rightarrow> (string list \<Rightarrow> ('f val \<times> string option) res) option" where
  "indirectSetter addr t v =
     (case indirect addr t v of (t', v') \<Rightarrow>
        (case lookupMethod SetCSV t' of
           Some (r, m) \<Rightarrow>
             Some (\<lambda>cells. case callOn r (m cells) v' of
                              Panic p \<Rightarrow> Panic p
                            | Done (rv, er) \<Rightarrow> Done (fieldAfter (addressed addr t) r v rv, er))
         | None \<Rightarrow> None))"

definition indirectTextUnmarshaler :: "bool \<Rightarrow> 'f gotype \<Rightarrow> 'f val \<Rightarrow> (string \<Rightarrow> ('f val \<times> string option) res) option" where
  "indirectTextUnmarshaler addr t v =
     (case indirect addr t v of (t', v') \<Rightarrow>
        (case lookupMethod UnmarshalText t' of
           Some (r, m) \<Rightarrow>
             Some (\<lambda>text. case callOn r (m text) v' of
                             Panic p \<Rightarrow> Panic p
                           | Done (rv, er) \<Rightarrow> Done (fieldAfter (addressed addr t) r v rv, er))
         | None \<Rightarrow> None))"

text \<open>
  \<open>readStringTo F dec addr t v value\<close> is \<open>dec.readStringTo(field, value)\<close> for the
  field \<open>(t, v)\<close>; \<open>addr\<close> says that the field can be set. The result is the field
  after the call and the returned error: what the call has assigned stays assigned when it
  returns an error. \<open>readStringToValue\<close> is the part of the function after the pointer
  has been instantiated, and \<open>readElems\<close> the loop of the slice case over the elements
  of the fresh slice, which are addressable.
\<close>

function (sequential) readStringTo :: "'f floats \<Rightarrow> 'f Decoder \<Rightarrow> bool \<Rightarrow> 'f gotype \<Rightarrow> 'f val \<Rightarrow> string \<Rightarrow> ('f val \<times> 'f error option) res"
  and readStringToValue :: "'f floats \<Rightarrow> 'f Decoder \<Rightarrow> bool \<Rightarrow> 'f gotype \<Rightarrow> 'f val \<Rightarrow> string \<Rightarrow> ('f val \<times> 'f error option) res"
  and readElems :: "'f floats \<Rightarrow> 'f Decoder \<Rightarrow> 'f gotype \<Rightarrow> string list \<Rightarrow> ('f error + 'f val list) res"
where
  "readStringTo F dec addr t v value =
     (if value = Decoder.NilValue dec then Done (v, None)
      else case kind t of
        KPtr e \<Rightarrow>
          (if \<not> addr then Panic Unsettable
           else case readStringToValue F dec True e (zero F e) value of
                  Panic p \<Rightarrow> Panic p
                | Done (x, er) \<Rightarrow> Done (VPtr (Some x), er))
      | _ \<Rightarrow> readStringToValue F dec addr t v value)"
| "readStringToValue F dec addr t v value =
     (if value = Decoder.EmptyValue dec then Done (v, None)
      else case indirectSetter addr t v of
        Some setter \<Rightarrow>
          (case setter [value] of
             Panic p \<Rightarrow> Panic p
           | Done (v', er) \<Rightarrow> Done (v', map_option HookErr er))
      | None \<Rightarrow>
      (case indirectTextUnmarshaler addr t v of
        Some textUnmarshaler \<Rightarrow>
          (case textUnmarshaler value of
             Panic p \<Rightarrow> Panic p
           | Done (v', er) \<Rightarrow> Done (v', map_option HookErr er))
      | None \<Rightarrow>
      (case kind t of
        KString \<Rightarrow> (if addr then Done (VStr value, None) else Panic Unsettable)
      | KInt \<Rightarrow>
          (case ParseInt value 0 0 of
             Inl er \<Rightarrow> Done (v, Some er)
           | Inr i \<Rightarrow> (if addr then Done (VInt i, None) else Panic Unsettable))
      | KInt8 \<Rightarrow>
          (case ParseInt value 0 8 of
             Inl er \<Rightarrow> Done (v, Some er)
           | Inr i \<Rightarrow> (if addr then Done (VInt i, None) else Panic Unsettable))
      | KInt16 \<Rightarrow>
          (case ParseInt value 0 16 of
             Inl er \<Rightarrow> Done (v, Some er)
           | Inr i \<Rightarrow> (if addr then Done (VInt i, None) else Panic Unsettable))
      | KInt32 \<Rightarrow>
          (case ParseInt value 0 32 of
             Inl er \<Rightarrow> Done (v, Some er)
           | Inr i \<Rightarrow> (if addr then Done (VInt i, None) else Panic Unsettable))
      | KInt64 \<Rightarrow>
          (case ParseInt value 0 64 of
             Inl er \<Rightarrow> Done (v, Some er)
           | Inr i \<Rightarrow> (if addr then Done (VInt i, None) else Panic Unsettable))
      | KFloat32 \<Rightarrow>
          (case ParseFloat F value 32 of
             Inl ne \<Rightarrow> Done (v, Some (NumError ''ParseFloat'' value ne))
           | Inr f \<Rightarrow> (if addr then Done (VFloat f, None) else Panic Unsettable))
      | KFloat64 \<Rightarrow>
          (case ParseFloat F value 64 of
             Inl ne \<Rightarrow> Done (v, Some (NumError ''ParseFloat'' value ne))
           | Inr f \<Rightarrow> (if addr then Done (VFloat f, None) else Panic Unsettable))
      | KBool \<Rightarrow>
          (case ParseBool value of
             Inl er \<Rightarrow> Done (v, Some er)
           | Inr b \<Rightarrow> (if addr then Done (VBool b, None) else Panic Unsettable))
      | KSlice e \<Rightarrow>
          (case readElems F dec e (Split value (CHR '','')) of
             Panic p \<Rightarrow> Panic p
           | Done (Inl er) \<Rightarrow> Done (v, Some er)
           | Done (Inr sliceValue) \<Rightarrow>
               (if addr then Done (VSlice (Some sliceValue), None) else Panic Unsettable))
      | _ \<Rightarrow> Done (v, Some (CantUnmarshal t)))))"
| "readElems F dec e [] = Done (Inr [])"
| "readElems F dec e (value # values) =
     (case readStringTo F dec True e (zero F e) value of
        Panic p \<Rightarrow> Panic p
      | Done (x, Some er) \<Rightarrow> Done (Inl er)
      | Done (x, None) \<Rightarrow>
          (case readElems F dec e values of
             Panic p \<Rightarrow> Panic p
           | Done (Inl er) \<Rightarrow> Done (Inl er)
           | Done (Inr xs) \<Rightarrow> Done (Inr (x # xs))))"
  by pat_completeness auto
termination
  apply (relation "inv_image (less_than <*lex*> less_than)
     (\<lambda>x. case x of
        Inl (F, dec, addr, t, v, value) \<Rightarrow> (size t, 2::nat)
      | Inr (Inl (F, dec, addr, t, v, value)) \<Rightarrow> (size t, 1)
      | Inr (Inr (F, dec, e, values)) \<Rightarrow> (size e, 3 + length values))")
  apply (simp_all add: size_kind_less)
  apply auto
  done

text \<open>
  CellValues: a Go map from a path segment to a string or to a pointer to another
  CellValues, as an association list with one entry for each key; \<open>store\<close> is the
  assignment \<open>vs[key] = x\<close> and \<open>Get\<close> the lookup.
\<close>

datatype cell = CString string | CValues "(string \<times> cell) list"

type_synonym CellValues = "(string \<times> cell) list"

fun store :: "CellValues \<Rightarrow> string \<Rightarrow> cell \<Rightarrow> CellValues" where
  "store [] key x = [(key, x)]"
| "store ((k, y) # vs) key x = (if k = key then (k, x) # vs else (k, y) # store vs key x)"

definition Get :: "CellValues \<Rightarrow> string \<Rightarrow> cell option" where
  "Get vs key = map_of vs key"

lemma SplitN2_shape:
  "(SplitN2 s c = [s] \<and> c \<notin> set s) \<or> (\<exists>h t. SplitN2 s c = [h, t] \<and> s = h @ c # t \<and> c \<notin> set h)"
proof (induction s)
  case Nil
  show ?case by simp
next
  case (Cons x xs)
  show ?case
  proof (cases "x = c")
    case True
    then show ?thesis by simp
  next
    case False
    from Cons.IH show ?thesis
    proof
      assume "SplitN2 xs c = [xs] \<and> c \<notin> set xs"
      with False show ?thesis by simp
    next
      assume "\<exists>h t. SplitN2 xs c = [h, t] \<and> xs = h @ c # t \<and> c \<notin> set h"
      then obtain h t where "SplitN2 xs c = [h, t]" "xs = h @ c # t" "c \<notin> set h" by blast
      with False have "SplitN2 (x # xs) c = [x # h, t] \<and> x # xs = (x # h) @ c # t \<and> c \<notin> set (x # h)"
        by simp
      then show ?thesis by blast
    qed
  qed
qed

lemma SplitN2_tail_shorter:
  "length (SplitN2 key c) \<noteq> Suc 0 \<Longrightarrow> length (SplitN2 key c ! Suc 0) < length key"
  using SplitN2_shape [of key c] by auto

text \<open>
  \<open>Set vs key value\<close> is \<open>vs.Set(key, value)\<close>; the result is the map after the call.
  The type assertion \<open>vs[headKey].(*CellValues)\<close> panics when the entry is a string.
\<close>

function Set :: "CellValues \<Rightarrow> string \<Rightarrow> string \<Rightarrow> CellValues res" where
  "Set vs key value =
     (let parts = SplitN2 key (CHR ''.'');
          headKey = hd parts
      in if length parts = 1 then Done (store vs headKey (CString value))
         else
           let tail = parts ! 1;
               vs1 = (if Get vs headKey = None then store vs headKey (CValues []) else vs)
           in case Get vs1 headKey of
                Some (CValues child) \<Rightarrow>
                  (case Set child tail value of
                     Panic p \<Rightarrow> Panic p
                   | Done child' \<Rightarrow> Done (store vs1 headKey (CValues child')))
              | _ \<Rightarrow> Panic TypeAssertion)"
  by pat_completeness auto
termination
  by (relation "measure (\<lambda>(vs, key, value). length key)") (auto simp: SplitN2_tail_shorter)

text \<open>
  The three functions that populate a struct from the cell values. Each returns the
  value after the call and the returned error. \<open>readStructToValue\<close> and
  \<open>readCellValuesToValue\<close> are the parts of their functions after the pointer step, and
  \<open>readFields\<close> is the loop over the fields of the struct.
\<close>

function (sequential) readStructTo :: "'f floats \<Rightarrow> 'f Decoder \<Rightarrow> bool \<Rightarrow> 'f gotype \<Rightarrow> 'f val \<Rightarrow> CellValues \<Rightarrow> ('f val \<times> 'f error option) res"
  and readStructToValue :: "'f floats \<Rightarrow> 'f Decoder \<Rightarrow> bool \<Rightarrow> 'f gotype \<Rightarrow> 'f val \<Rightarrow> CellValues \<Rightarrow> ('f val \<times> 'f error option) res"
  and readFields :: "'f floats \<Rightarrow> 'f Decoder \<Rightarrow> bool \<Rightarrow> 'f field list \<Rightarrow> 'f val list \<Rightarrow> CellValues \<Rightarrow> ('f val list \<times> 'f error option) res"
  and readCellValuesTo :: "'f floats \<Rightarrow> 'f Decoder \<Rightarrow> bool \<Rightarrow> 'f gotype \<Rightarrow> 'f val \<Rightarrow> CellValues \<Rightarrow> ('f val \<times> 'f error option) res"
  and readCellValuesToValue :: "'f floats \<Rightarrow> 'f Decoder \<Rightarrow> bool \<Rightarrow> 'f gotype \<Rightarrow> 'f val \<Rightarrow> CellValues \<Rightarrow> ('f val \<times> 'f error option) res"
where
  "readStructTo F dec addr t v values =
     (case kind t of
        KPtr e \<Rightarrow>
          (case v of
             VPtr None \<Rightarrow> Panic InvalidValue
           | VPtr (Some x) \<Rightarrow>
               (case readStructToValue F dec True e x values of
                  Panic p \<Rightarrow> Panic p
                | Done (x', er) \<Rightarrow> Done (VPtr (Some x'), er))
           | _ \<Rightarrow> Panic IllTyped)
      | _ \<Rightarrow> readStructToValue F dec addr t v values)"
| "readStructToValue F dec addr t v values =
     (case kind t of
        KStruct fs \<Rightarrow>
          (case v of
             VStruct vs \<Rightarrow>
               (case readFields F dec addr fs vs values of
                  Panic p \<Rightarrow> Panic p
                | Done (vs', er) \<Rightarrow> Done (VStruct vs', er))
           | _ \<Rightarrow> Panic IllTyped)
      | _ \<Rightarrow> Panic NotAStruct)"
| "readFields F dec addr [] vs values = Done (vs, None)"
| "readFields F dec addr (fieldType # fs) [] values = Panic IllTyped"
| "readFields F dec addr (fieldType # fs) (fieldValue # vs) values =
     (let key = Split (csvTag fieldType) (CHR '','');
          fieldName = hd key
      in if hd key = ''-'' \<or> (PkgPath fieldType \<noteq> [] \<and> \<not> Anonymous fieldType)
         then (case readFields F dec addr fs vs values of
                 Panic p \<Rightarrow> Panic p
               | Done (vs', er) \<Rightarrow> Done (fieldValue # vs', er))
         else
           let fieldName = (if fieldName = [] then ToLower (Name fieldType) else fieldName)
           in case (if Anonymous fieldType
                    then readStructTo F dec addr (ftype fieldType) fieldValue values
                    else case Get values fieldName of
                           Some (CValues cell) \<Rightarrow>
                             readCellValuesTo F dec addr (ftype fieldType) fieldValue cell
                         | Some (CString cell) \<Rightarrow>
                             readStringTo F dec addr (ftype fieldType) fieldValue cell
                         | None \<Rightarrow> Done (fieldValue, None)) of
                Panic p \<Rightarrow> Panic p
              | Done (x, Some er) \<Rightarrow> Done (x # vs, Some er)
              | Done (x, None) \<Rightarrow>
                  (case readFields F dec addr fs vs values of
                     Panic p \<Rightarrow> Panic p
                   | Done (vs', er) \<Rightarrow> Done (x # vs', er)))"
| "readCellValuesTo F dec addr t v values =
     (case kind t of
        KPtr e \<Rightarrow>
          (if \<not> addr then Panic Unsettable
           else case readCellValuesToValue F dec True e (zero F e) values of
                  Panic p \<Rightarrow> Panic p
                | Done (x, er) \<Rightarrow> Done (VPtr (Some x), er))
      | _ \<Rightarrow> readCellValuesToValue F dec addr t v values)"
| "readCellValuesToValue F dec addr t v values =
     (case kind t of
        KStruct fs \<Rightarrow>
          (case readStructTo F dec addr t v values of
             Panic p \<Rightarrow> Panic p
           | Done (x, Some er) \<Rightarrow> Done (x, Some er)
           | Done (x, None) \<Rightarrow> Done (x, Decoder.err dec))
      | _ \<Rightarrow> Done (v, Some (CantUnmarshal t)))"
  by pat_completeness auto
termination
  apply (relation "inv_image (less_than <*lex*> less_than)
     (\<lambda>x. case x of
        Inl (Inl (F, dec, addr, t, v, values)) \<Rightarrow> (size t, 2::nat)
      | Inl (Inr (F, dec, addr, t, v, values)) \<Rightarrow> (size t, 1)
      | Inr (Inl (F, dec, addr, fs, vs, values)) \<Rightarrow> (size_list size fs, 5 + length fs)
      | Inr (Inr (Inl (F, dec, addr, t, v, values))) \<Rightarrow> (size t, 4)
      | Inr (Inr (Inr (F, dec, addr, t, v, values))) \<Rightarrow> (size t, 3))")
  apply (simp_all add: size_kind_less size_ftype_less)
  apply auto
  done

text \<open>
  The loop of Decode that builds the cell values from the header and the row
  \<open>r\<close>; \<open>r[i]\<close> panics when the row is shorter than the header.
\<close>

fun setAll :: "CellValues \<Rightarrow> string list \<Rightarrow> string list \<Rightarrow> CellValues res" where
  "setAll m [] r = Done m"
| "setAll m (key # keys) [] = Panic IndexOutOfRange"
| "setAll m (key # keys) (x # r) =
     (case Set m key x of Panic p \<Rightarrow> Panic p | Done m' \<Rightarrow> setAll m' keys r)"

text \<open>
  \<open>Decode F dec rd i\<close> is \<open>dec.Decode(i)\<close> with the reader in state \<open>rd\<close>. The method
  has a pointer receiver: the result is the returned error, the decoder and the reader after
  the call, and the target after the call.
\<close>

definition Decode :: "'f floats \<Rightarrow> 'f Decoder \<Rightarrow> 'f Reader \<Rightarrow> ('f gotype \<times> 'f val) option \<Rightarrow> ('f error option \<times> 'f Decoder \<times> 'f Reader \<times> ('f gotype \<times> 'f val) option) res" where
  "Decode F dec rd i =
     (if Decoder.err dec \<noteq> None then Done (Decoder.err dec, dec, rd, i)
      else case Read rd of ((r, er), rd') \<Rightarrow>
        (let dec1 = dec\<lparr>Decoder.err := er\<rparr>
         in if Decoder.err dec1 \<noteq> None then Done (Decoder.err dec1, dec1, rd', i)
            else case setAll [] (header dec1) r of
                   Panic p \<Rightarrow> Panic p
                 | Done m \<Rightarrow>
                     (case i of
                        None \<Rightarrow> Panic InvalidValue
                      | Some (t, v) \<Rightarrow>
                          (case readStructTo F dec1 False t v m of
                             Panic p \<Rightarrow> Panic p
                           | Done (v', None) \<Rightarrow> Done (Decoder.err dec1, dec1, rd', Some (t, v'))
                           | Done (v', Some e) \<Rightarrow>
                               (let dec2 = dec1\<lparr>Decoder.err := Some e\<rparr>
                                in Done (Decoder.err dec2, dec2, rd', Some (t, v')))))))"

section \<open>Evaluating the codec on concrete rows\<close>

text \<open>
  The recursive equations are unfolded on request only. The two collections below
  evaluate the encoder and the decoder on a concrete type and value.
\<close>

declare marshal.simps [simp del]
declare marshalValue.simps [simp del]
declare readStringTo.simps [simp del]
declare readStringToValue.simps [simp del]
declare readStructTo.simps [simp del]
declare readStructToValue.simps [simp del]
declare readCellValuesTo.simps [simp del]
declare readCellValuesToValue.simps [simp del]
declare Set.simps [simp del]
declare formatBits.simps [simp del]

text \<open>
  A stand-in for the floating point library in concrete runs: the floats are the whole
  numbers, written and read in decimal.
\<close>

definition wholeFloats :: "int floats" where
  "wholeFloats =
     \<lparr>FormatFloat = (\<lambda>x fmt prec bitSize. FormatInt x 10),
      ParseFloat = (\<lambda>s bitSize. case (ParseInt s 10 64 :: unit error + int) of
                                    Inl (NumError fn num e) \<Rightarrow> Inl e
                                  | Inl er \<Rightarrow> Inl ErrSyntax
                                  | Inr i \<Rightarrow> Inr i),
      FloatZero = 0,
      FloatEq = (=)\<rparr>"

text \<open>A decoder as NewDecoder leaves it after reading the header \<open>h\<close>.\<close>

definition defaultDecoder :: "string list \<Rightarrow> 'f Decoder" where
  "defaultDecoder h = \<lparr>header = h, err = None, EmptyValue = DefaultEmptyValue, NilValue = DefaultNilValue\<rparr>"

definition emptyWriter :: Writer where
  "emptyWriter = \<lparr>rows = [], failing = None\<rparr>"

lemmas encode_eval =
  Encode_def NewEncoder_def plain_def ptrTo_def indirectGetter_def indirectTextMarshaler_def
  indirect_def lookupMethod_def callOn_def noHooks_def DefaultNilValue_def DefaultEmptyValue_def
  Write_def emptyWriter_def FormatBool_def FormatInt_def formatBits.simps digitChars_def Let_def
  marshal.simps marshalValue.simps

lemmas decode_eval =
  Decode_def Read_def NewDecoder_def plain_def ptrTo_def indirectSetter_def
  indirectTextUnmarshaler_def indirect_def lookupMethod_def callOn_def noHooks_def
  DefaultNilValue_def DefaultEmptyValue_def Get_def ToLower_def toLowerChar_def addressed_def
  fieldAfter_def received_def Let_def ParseInt_def ParseUint_def digitOf_def isDigit_def
  isLetter_def
  lower_def IntSize_def ParseBool_def readStringTo.simps readStringToValue.simps
  readStructTo.simps readStructToValue.simps readCellValuesTo.simps readCellValuesToValue.simps
  Set.simps

section \<open>Nil pointers to structs\<close>

text \<open>
  Two parents with one field \<open>Child\<close> that points to a struct. In the first the child
  has the fields \<open>A\<close> and \<open>B\<close>, and \<open>B\<close> carries the tag \<^verbatim>\<open>csv:"-"\<close>. In the second the
  child has one field \<open>Inner\<close>, a struct of the two strings \<open>X\<close> and \<open>Y\<close>.
\<close>

definition skippedChild :: "'f gotype" where
  "skippedChild = Type ''ChildStruct'' noHooks
     (KStruct [Field ''A'' [] [] False (plain KString), Field ''B'' ''-'' [] False (plain KString)])"

definition skippedParent :: "'f gotype" where
  "skippedParent = plain (KStruct [Field ''Child'' [] [] False (ptrTo skippedChild)])"

definition nestedChild :: "'f gotype" where
  "nestedChild = Type ''ChildStruct'' noHooks
     (KStruct [Field ''Inner'' [] [] False
        (plain (KStruct [Field ''X'' [] [] False (plain KString), Field ''Y'' [] [] False (plain KString)]))])"

definition nestedParent :: "'f gotype" where
  "nestedParent = plain (KStruct [Field ''Child'' [] [] False (ptrTo nestedChild)])"

text \<open>
  C1. A nil pointer to a struct is claimed to produce as many cells as a populated one,
  also when the pointee has skipped fields or nested structs. The code counts every
  exported field of the pointee once: with a field tagged \<^verbatim>\<open>csv:"-"\<close> the nil row has two
  cells and the populated row one, and with a nested struct of two fields the nil row has
  one cell and the populated row two.
\<close>

theorem nil_struct_row_width_differs:
  "Encode F NewEncoder emptyWriter (Some (skippedParent, VStruct [VPtr None]))
     = Done (None, NewEncoder, \<lparr>rows = [[''NULL'', ''NULL'']], failing = None\<rparr>)
   \<and> Encode F NewEncoder emptyWriter
       (Some (skippedParent, VStruct [VPtr (Some (VStruct [VStr ''a'', VStr ''b'']))]))
     = Done (None, NewEncoder, \<lparr>rows = [[''a'']], failing = None\<rparr>)
   \<and> Encode F NewEncoder emptyWriter (Some (nestedParent, VStruct [VPtr None]))
     = Done (None, NewEncoder, \<lparr>rows = [[''NULL'']], failing = None\<rparr>)
   \<and> Encode F NewEncoder emptyWriter
       (Some (nestedParent, VStruct [VPtr (Some (VStruct [VStruct [VStr ''x'', VStr ''y'']]))]))
     = Done (None, NewEncoder, \<lparr>rows = [[''x'', ''y'']], failing = None\<rparr>)"
  by (simp add: encode_eval skippedParent_def skippedChild_def nestedParent_def nestedChild_def)

section \<open>The sticky error\<close>

text \<open>
  A row with a field of a kind the encoder has no case for, and a row with one string.
\<close>

definition unsupportedRow :: "'f gotype" where
  "unsupportedRow = plain (KStruct [Field ''C'' [] [] False (plain KOther)])"

definition nameRow :: "'f gotype" where
  "nameRow = plain (KStruct [Field ''Name'' [] [] False (plain KString)])"

text \<open>
  The decoder keeps its first error: Decode has a pointer receiver, and a call that
  returns an error leaves it in \<open>dec.err\<close>, which every later call returns at once,
  without reading a row or touching its target.
\<close>

lemma Decode_sticky:
  assumes "Decode F dec rd i = Done (Some e, dec', rd', i')"
  shows "Decode F dec' rd2 j = Done (Some e, dec', rd2, j)"
proof -
  from assms have "Decoder.err dec' = Some e"
    by (auto simp: Decode_def Let_def split: if_splits prod.splits res.splits option.splits)
  then show ?thesis by (simp add: Decode_def)
qed

text \<open>
  C2. After a failing call, every later call on the same Encoder is claimed to return the
  stored error without marshalling or writing. Encode has a value receiver, so the error
  it stores is lost with its copy of the encoder: the first call below fails on the
  unsupported field and leaves the caller's encoder as NewEncoder made it, and the
  second call on that encoder marshals and writes the row \<open>vin\<close>.
\<close>

theorem encoder_error_not_sticky:
  "Encode F NewEncoder emptyWriter (Some (unsupportedRow, VStruct [VOther 1]))
     = Done (Some (StructFieldErr ''C'' (VOther 1) (CantMarshal (VOther 1) (plain KOther))),
             NewEncoder, emptyWriter)
   \<and> Encode F NewEncoder emptyWriter (Some (nameRow, VStruct [VStr ''vin'']))
     = Done (None, NewEncoder, \<lparr>rows = [[''vin'']], failing = None\<rparr>)"
  by (simp add: encode_eval unsupportedRow_def nameRow_def)

section \<open>Dotted paths that run through a leaf\<close>

lemma Get_store: "Get (store vs k x) k' = (if k = k' then Some x else Get vs k')"
  by (induction vs) (auto simp: Get_def)

text \<open>
  \<open>blocked vs key\<close>: walking the segments of \<open>key\<close> down the cell values meets a
  string, at the last segment or before it.
\<close>

function blocked :: "CellValues \<Rightarrow> string \<Rightarrow> bool" where
  "blocked vs key =
     (let parts = SplitN2 key (CHR ''.'')
      in case Get vs (hd parts) of
           Some (CString s) \<Rightarrow> True
         | Some (CValues child) \<Rightarrow> (if length parts = 1 then False else blocked child (parts ! 1))
         | None \<Rightarrow> False)"
  by pat_completeness auto
termination
  by (relation "measure (\<lambda>(vs, key). length key)") (auto simp: SplitN2_tail_shorter)

declare blocked.simps [simp del]

lemma SplitN2_first: "c \<notin> set h \<Longrightarrow> SplitN2 (h @ c # t) c = [h, t]"
  by (induction h) auto

lemma SplitN2_single: "length (SplitN2 s c) = Suc 0 \<Longrightarrow> SplitN2 s c = [s] \<and> c \<notin> set s"
  using SplitN2_shape [of s c] by auto

lemma SplitN2_many:
  "length (SplitN2 s c) \<noteq> Suc 0 \<Longrightarrow>
     \<exists>h t. SplitN2 s c = [h, t] \<and> s = h @ c # t \<and> c \<notin> set h"
  using SplitN2_shape [of s c] by auto

lemma SplitN2_dotted:
  "SplitN2 (p @ c # q) c =
     (if length (SplitN2 p c) = Suc 0 then [p, q]
      else [hd (SplitN2 p c), SplitN2 p c ! Suc 0 @ c # q])"
proof (cases "length (SplitN2 p c) = Suc 0")
  case True
  then show ?thesis using SplitN2_single [OF True] by (simp add: SplitN2_first)
next
  case False
  from SplitN2_many [OF False] obtain h t
    where "SplitN2 p c = [h, t]" "p = h @ c # t" "c \<notin> set h" by blast
  then show ?thesis using SplitN2_first [of c h "t @ c # q"] by simp
qed

lemma Set_panics_below_leaf:
  "blocked vs p \<Longrightarrow> Set vs (p @ CHR ''.'' # q) y = Panic TypeAssertion"
proof (induction vs p arbitrary: q rule: blocked.induct)
  case (1 vs key)
  let ?parts = "SplitN2 key (CHR ''.'')"
  show ?case
  proof (cases "Get vs (hd ?parts)")
    case None
    with "1.prems" show ?thesis by (simp add: blocked.simps [of vs key])
  next
    case (Some c)
    show ?thesis
    proof (cases c)
      case (CString s)
      with Some show ?thesis
        by (auto simp: Set.simps [of vs "key @ CHR ''.'' # q"] SplitN2_dotted dest: SplitN2_single)
    next
      case (CValues child)
      with Some "1.prems" have many: "length ?parts \<noteq> 1" and below: "blocked child (?parts ! 1)"
        by (auto simp: blocked.simps [of vs key] Let_def split: if_splits)
      from "1.IH" [OF refl Some CValues many below]
      have "Set child (?parts ! 1 @ CHR ''.'' # q) y = Panic TypeAssertion" .
      with Some CValues many show ?thesis
        by (simp add: Set.simps [of vs "key @ CHR ''.'' # q"] SplitN2_dotted)
    qed
  qed
qed

lemma Set_makes_leaf: "Set vs p x = Done vs' \<Longrightarrow> blocked vs' p"
proof (induction vs p x arbitrary: vs' rule: Set.induct)
  case (1 vs key x)
  let ?parts = "SplitN2 key (CHR ''.'')"
  let ?vs1 = "if Get vs (hd ?parts) = None then store vs (hd ?parts) (CValues []) else vs"
  show ?case
  proof (cases "length ?parts = 1")
    case True
    with "1.prems" have "vs' = store vs (hd ?parts) (CString x)"
      by (simp add: Set.simps [of vs key])
    then show ?thesis by (simp add: blocked.simps [of _ key] Get_store)
  next
    case False
    with "1.prems" obtain child child'
      where c: "Get ?vs1 (hd ?parts) = Some (CValues child)"
        and r: "Set child (?parts ! 1) x = Done child'"
        and v: "vs' = store ?vs1 (hd ?parts) (CValues child')"
      by (auto simp: Set.simps [of vs key] Let_def split: option.splits cell.splits res.splits)
    from "1.IH" [OF refl refl False refl refl c refl r] have "blocked child' (?parts ! 1)" .
    with False v show ?thesis by (simp add: blocked.simps [of _ key] Get_store)
  qed
qed

lemma Set_keeps_leaf: "Set vs k y = Done vs' \<Longrightarrow> blocked vs p \<Longrightarrow> blocked vs' p"
proof (induction vs k y arbitrary: vs' p rule: Set.induct)
  case (1 vs key y)
  let ?parts = "SplitN2 key (CHR ''.'')"
  let ?vs1 = "if Get vs (hd ?parts) = None then store vs (hd ?parts) (CValues []) else vs"
  let ?hp = "hd (SplitN2 p (CHR ''.''))"
  show ?case
  proof (cases "length ?parts = 1")
    case True
    with "1.prems"(1) have v: "vs' = store vs (hd ?parts) (CString y)"
      by (simp add: Set.simps [of vs key])
    show ?thesis
    proof (cases "?hp = hd ?parts")
      case True
      with v show ?thesis by (simp add: blocked.simps [of _ p] Get_store)
    next
      case False
      with v have "Get vs' ?hp = Get vs ?hp" by (simp add: Get_store)
      with "1.prems"(2) show ?thesis by (simp add: blocked.simps [of _ p] blocked.simps [of vs p])
    qed
  next
    case False
    with "1.prems"(1) obtain child child'
      where c: "Get ?vs1 (hd ?parts) = Some (CValues child)"
        and r: "Set child (?parts ! 1) y = Done child'"
        and v: "vs' = store ?vs1 (hd ?parts) (CValues child')"
      by (auto simp: Set.simps [of vs key] Let_def split: option.splits cell.splits res.splits)
    show ?thesis
    proof (cases "?hp = hd ?parts")
      case different: False
      with v have "Get vs' ?hp = Get vs ?hp" by (simp add: Get_store)
      with "1.prems"(2) show ?thesis by (simp add: blocked.simps [of _ p] blocked.simps [of vs p])
    next
      case same: True
      with "1.prems"(2) have "Get vs (hd ?parts) \<noteq> None"
        by (auto simp: blocked.simps [of vs p] Let_def split: option.splits)
      with c have old: "Get vs (hd ?parts) = Some (CValues child)" by simp
      with same "1.prems"(2) have many: "length (SplitN2 p (CHR ''.'')) \<noteq> 1"
        and below: "blocked child (SplitN2 p (CHR ''.'') ! 1)"
        by (auto simp: blocked.simps [of vs p] Let_def split: if_splits)
      from "1.IH" [OF refl refl False refl refl c refl r below]
      have "blocked child' (SplitN2 p (CHR ''.'') ! 1)" .
      with same many v show ?thesis by (simp add: blocked.simps [of _ p] Get_store)
    qed
  qed
qed

lemma Set_panic_kind: "Set vs k y = Panic pn \<Longrightarrow> pn = TypeAssertion"
proof (induction vs k y rule: Set.induct)
  case (1 vs key y)
  then show ?case
    by (auto simp: Set.simps [of vs key] Let_def split: if_splits option.splits cell.splits res.splits)
qed

lemma setAll_keeps_leaf: "setAll vs keys r = Done vs' \<Longrightarrow> blocked vs p \<Longrightarrow> blocked vs' p"
proof (induction vs keys r rule: setAll.induct)
  case (3 m key keys x r)
  then show ?case by (auto split: res.splits dest: Set_keeps_leaf)
qed simp_all

lemma setAll_panic_kind:
  "setAll vs keys r = Panic pn \<Longrightarrow> length keys \<le> length r \<Longrightarrow> pn = TypeAssertion"
proof (induction vs keys r rule: setAll.induct)
  case (3 m key keys x r)
  then show ?case by (auto split: res.splits dest: Set_panic_kind)
qed simp_all

lemma setAll_below_leaf:
  "blocked vs p \<Longrightarrow> length (ks @ (p @ CHR ''.'' # q) # ks') \<le> length r \<Longrightarrow>
     setAll vs (ks @ (p @ CHR ''.'' # q) # ks') r = Panic TypeAssertion"
proof (induction ks arbitrary: vs r)
  case Nil
  then obtain x r' where "r = x # r'" by (cases r) auto
  with Nil show ?case by (simp add: Set_panics_below_leaf)
next
  case (Cons k ks)
  then obtain x r' where r: "r = x # r'" by (cases r) auto
  show ?case
  proof (cases "Set vs k x")
    case (Panic pn)
    with r show ?thesis by (simp add: Set_panic_kind [OF Panic])
  next
    case (Done vs1)
    from Set_keeps_leaf [OF Done Cons.prems(1)] have "blocked vs1 p" .
    with Cons.IH [of vs1 r'] Cons.prems(2) r Done show ?thesis by simp
  qed
qed

lemma setAll_leaf_then_below:
  assumes "length (ks0 @ p # ks @ (p @ CHR ''.'' # q) # ks') \<le> length r"
  shows "setAll vs (ks0 @ p # ks @ (p @ CHR ''.'' # q) # ks') r = Panic TypeAssertion"
  using assms
proof (induction ks0 arbitrary: vs r)
  case Nil
  then obtain x r' where r: "r = x # r'" by (cases r) auto
  show ?case
  proof (cases "Set vs p x")
    case (Panic pn)
    with r show ?thesis by (simp add: Set_panic_kind [OF Panic])
  next
    case (Done vs1)
    then have "blocked vs1 p" by (rule Set_makes_leaf)
    from setAll_below_leaf [OF this, of ks q ks' r'] Nil r Done show ?thesis by simp
  qed
next
  case (Cons k ks0)
  then obtain x r' where r: "r = x # r'" by (cases r) auto
  show ?case
  proof (cases "Set vs k x")
    case (Panic pn)
    with r show ?thesis by (simp add: Set_panic_kind [OF Panic])
  next
    case (Done vs1)
    with Cons.IH [of r' vs1] Cons.prems r show ?thesis by simp
  qed
qed

text \<open>
  C9. Once a path \<open>p\<close> has been inserted as a leaf, and whatever has been inserted
  since, inserting a path that continues \<open>p\<close> after a dot panics on the type assertion;
  and Decode panics in the same way, instead of returning an error, when its header holds
  \<open>p\<close> and later a path that continues \<open>p\<close>.
\<close>

theorem Set_panics_on_path_through_leaf:
  "(Set vs p x = Done vs1 \<and> setAll vs1 keys r = Done vs2
      \<longrightarrow> Set vs2 (p @ ''.'' @ q) y = Panic TypeAssertion)
   \<and> (Decoder.err dec = None \<and> Read rd = ((row, None), rd')
      \<and> header dec = ks0 @ p # ks @ (p @ ''.'' @ q) # ks' \<and> length (header dec) \<le> length row
      \<longrightarrow> Decode F dec rd i = Panic TypeAssertion)"
proof (intro conjI impI)
  assume "Set vs p x = Done vs1 \<and> setAll vs1 keys r = Done vs2"
  then have "blocked vs2 p" by (auto dest: Set_makes_leaf setAll_keeps_leaf)
  then show "Set vs2 (p @ ''.'' @ q) y = Panic TypeAssertion"
    using Set_panics_below_leaf [of vs2 p q y] by simp
next
  assume a: "Decoder.err dec = None \<and> Read rd = ((row, None), rd')
      \<and> header dec = ks0 @ p # ks @ (p @ ''.'' @ q) # ks' \<and> length (header dec) \<le> length row"
  then have h: "header dec = ks0 @ p # ks @ (p @ CHR ''.'' # q) # ks'"
    and "length (header dec) \<le> length row" by auto
  then have "length (ks0 @ p # ks @ (p @ CHR ''.'' # q) # ks') \<le> length row" by simp
  from setAll_leaf_then_below [OF this, of "[]"] a
  have "setAll [] (header dec) row = Panic TypeAssertion" by simp
  with a show "Decode F dec rd i = Panic TypeAssertion"
    by (simp add: Decode_def)
qed

theorem Set_panics_on_path_through_leaf_witness:
  "Set [] ''a'' ''1'' = Done [(''a'', CString ''1'')]
   \<and> setAll [(''a'', CString ''1'')] [''b''] [''2''] = Done [(''a'', CString ''1''), (''b'', CString ''2'')]
   \<and> Set [(''a'', CString ''1''), (''b'', CString ''2'')] ''a.b'' ''3'' = Panic TypeAssertion
   \<and> Decode wholeFloats \<lparr>header = [''a'', ''a.b''], err = None, EmptyValue = [], NilValue = ''NULL''\<rparr>
        [([''1'', ''3''], None)] (Some (ptrTo nameRow, VPtr (Some (VStruct [VStr []]))))
      = Panic TypeAssertion"
  using Set_panics_on_path_through_leaf [of "[]" "''a''" "''1''" "[(''a'', CString ''1'')]" "[''b'']" "[''2'']"
      "[(''a'', CString ''1''), (''b'', CString ''2'')]" "''b''" "''3''"
      "\<lparr>header = [''a'', ''a.b''], err = None, EmptyValue = [], NilValue = ''NULL''\<rparr>"
      "[([''1'', ''3''], None)]" "[''1'', ''3'']" "[]" "[]" "[]" "[]" wholeFloats
      "Some (ptrTo nameRow, VPtr (Some (VStruct [VStr []])))"]
  by (simp add: Set.simps Get_def Read_def)

section \<open>Leaf assignment\<close>

text \<open>The pointer step of readStringTo, for a field that is a pointer and for one that is not.\<close>

lemma kind_not_ptr: "\<not> isPtr t \<Longrightarrow> (case kind t of KPtr e \<Rightarrow> A e | _ \<Rightarrow> B) = B"
  by (cases t; cases "kind t") simp_all

lemma readStringTo_value:
  "\<not> isPtr t \<Longrightarrow> value \<noteq> Decoder.NilValue dec \<Longrightarrow>
     readStringTo F dec addr t v value = readStringToValue F dec addr t v value"
  by (cases t; cases "kind t") (simp_all add: readStringTo.simps)

lemma readStringTo_pointer:
  "kind t = KPtr e \<Longrightarrow> value \<noteq> Decoder.NilValue dec \<Longrightarrow>
     readStringTo F dec True t v value =
       (case readStringToValue F dec True e (zero F e) value of
          Panic p \<Rightarrow> Panic p
        | Done (x, er) \<Rightarrow> Done (VPtr (Some x), er))"
  by (simp add: readStringTo.simps)

text \<open>
  C6. In leaf assignment a cell equal to NilValue leaves the field as it is and returns.
  For a pointer field that can be set and a cell other than NilValue, the result does not
  depend on what the field held before, and every return leaves the field bound to a
  pointee; when the cell is EmptyValue the pointee is the zero value of the underlying
  type. For a field that is not a pointer, a cell equal to EmptyValue leaves the field as
  it is.
\<close>

theorem leaf_assignment_sentinels:
  "readStringTo F dec addr t v (Decoder.NilValue dec) = Done (v, None)
   \<and> (kind tp = KPtr e \<and> value \<noteq> Decoder.NilValue dec \<longrightarrow>
        readStringTo F dec True tp v1 value = readStringTo F dec True tp (VPtr None) value
        \<and> (\<forall>v' er. readStringTo F dec True tp v1 value = Done (v', er) \<longrightarrow> (\<exists>x. v' = VPtr (Some x))))
   \<and> (kind tp = KPtr e \<and> Decoder.EmptyValue dec \<noteq> Decoder.NilValue dec \<longrightarrow>
        readStringTo F dec True tp v1 (Decoder.EmptyValue dec) = Done (VPtr (Some (zero F e)), None))
   \<and> (\<not> isPtr tn \<and> Decoder.EmptyValue dec \<noteq> Decoder.NilValue dec \<longrightarrow>
        readStringTo F dec addr tn v2 (Decoder.EmptyValue dec) = Done (v2, None))"
proof (intro conjI impI allI)
  show "readStringTo F dec addr t v (Decoder.NilValue dec) = Done (v, None)"
    by (simp add: readStringTo.simps)
next
  assume "kind tp = KPtr e \<and> value \<noteq> Decoder.NilValue dec"
  then show "readStringTo F dec True tp v1 value = readStringTo F dec True tp (VPtr None) value"
    by (simp add: readStringTo_pointer)
next
  fix v' er
  assume "kind tp = KPtr e \<and> value \<noteq> Decoder.NilValue dec"
    and "readStringTo F dec True tp v1 value = Done (v', er)"
  then show "\<exists>x. v' = VPtr (Some x)"
    by (auto simp: readStringTo_pointer split: res.splits)
next
  assume "kind tp = KPtr e \<and> Decoder.EmptyValue dec \<noteq> Decoder.NilValue dec"
  then show "readStringTo F dec True tp v1 (Decoder.EmptyValue dec) = Done (VPtr (Some (zero F e)), None)"
    by (simp add: readStringTo_pointer readStringToValue.simps)
next
  assume "\<not> isPtr tn \<and> Decoder.EmptyValue dec \<noteq> Decoder.NilValue dec"
  then show "readStringTo F dec addr tn v2 (Decoder.EmptyValue dec) = Done (v2, None)"
    by (simp add: readStringTo_value readStringToValue.simps)
qed

theorem leaf_assignment_sentinels_witness:
  "kind (ptrTo (plain KInt)) = KPtr (plain KInt) \<and> ''5'' \<noteq> Decoder.NilValue (defaultDecoder [])
   \<and> Decoder.EmptyValue (defaultDecoder []) \<noteq> Decoder.NilValue (defaultDecoder [])
   \<and> \<not> isPtr (plain KInt)
   \<and> readStringTo wholeFloats (defaultDecoder []) True (plain KInt) (VInt 7) ''NULL'' = Done (VInt 7, None)
   \<and> readStringTo wholeFloats (defaultDecoder []) True (ptrTo (plain KInt)) (VPtr (Some (VInt 7))) ''5''
       = Done (VPtr (Some (VInt 5)), None)
   \<and> readStringTo wholeFloats (defaultDecoder []) True (ptrTo (plain KInt)) (VPtr (Some (VInt 7))) []
       = Done (VPtr (Some (VInt 0)), None)
   \<and> readStringTo wholeFloats (defaultDecoder []) True (plain KInt) (VInt 7) [] = Done (VInt 7, None)"
  using leaf_assignment_sentinels [of wholeFloats "defaultDecoder []" True "plain KInt" "VInt 7"
      "ptrTo (plain KInt)" "plain KInt" "''5''" "VPtr (Some (VInt 7))" "plain KInt" "VInt 7"]
  by (simp add: decode_eval defaultDecoder_def)

section \<open>Slices are assigned as a whole\<close>

lemma slice_not_ptr: "kind t = KSlice e \<Longrightarrow> \<not> isPtr t"
  by (cases t) auto

lemma readElems_all:
  "readElems F dec e parts = Done (Inr xs) \<Longrightarrow>
     length xs = length parts \<and>
     (\<forall>i<length parts. readStringTo F dec True e (zero F e) (parts ! i) = Done (xs ! i, None))"
proof (induction parts arbitrary: xs)
  case Nil
  then show ?case by simp
next
  case (Cons p ps)
  from Cons.prems obtain x xs' where
    first: "readStringTo F dec True e (zero F e) p = Done (x, None)"
    and rest: "readElems F dec e ps = Done (Inr xs')"
    and xs: "xs = x # xs'"
    by (auto split: res.splits prod.splits option.splits sum.splits)
  from Cons.IH [OF rest] first xs show ?case
    by (auto simp: nth_Cons split: nat.splits)
qed

lemma readElems_first_failure:
  "readElems F dec e parts = Done (Inl er) \<Longrightarrow>
     \<exists>i<length parts. \<exists>x. readStringTo F dec True e (zero F e) (parts ! i) = Done (x, Some er)"
proof (induction parts)
  case Nil
  then show ?case by simp
next
  case (Cons p ps)
  show ?case
  proof (cases "readStringTo F dec True e (zero F e) p")
    case (Panic pn)
    with Cons.prems show ?thesis by simp
  next
    case (Done r)
    obtain x oe where r: "r = (x, oe)" by (cases r)
    show ?thesis
    proof (cases oe)
      case (Some er')
      with Done r Cons.prems have "er' = er" by simp
      with Done r Some have "readStringTo F dec True e (zero F e) ((p # ps) ! 0) = Done (x, Some er)"
        by simp
      then show ?thesis by blast
    next
      case None
      with Done r Cons.prems have "readElems F dec e ps = Done (Inl er)"
        by (auto split: res.splits sum.splits)
      from Cons.IH [OF this] obtain i x' where "i < length ps"
        "readStringTo F dec True e (zero F e) (ps ! i) = Done (x', Some er)" by blast
      then have "Suc i < length (p # ps)"
        "readStringTo F dec True e (zero F e) ((p # ps) ! Suc i) = Done (x', Some er)" by simp_all
      then show ?thesis by blast
    qed
  qed
qed

lemma readStringTo_slice:
  assumes "kind t = KSlice e" "indirectSetter addr t v = None"
    "indirectTextUnmarshaler addr t v = None"
    "value \<noteq> Decoder.NilValue dec" "value \<noteq> Decoder.EmptyValue dec"
  shows "readStringTo F dec addr t v value =
     (case readElems F dec e (Split value (CHR '','')) of
        Panic p \<Rightarrow> Panic p
      | Done (Inl er) \<Rightarrow> Done (v, Some er)
      | Done (Inr sliceValue) \<Rightarrow>
          (if addr then Done (VSlice (Some sliceValue), None) else Panic Unsettable))"
  using assms by (simp add: readStringTo_value slice_not_ptr readStringToValue.simps)

text \<open>
  C8. For a slice field without hooks and a cell that is neither sentinel: when the
  assignment succeeds the field holds a slice with one element for each comma-separated
  part, each the result of assigning that part to a fresh element; when it returns an
  error the field is as it was before and the error is that of one of the parts; and
  when any part fails the call does not succeed.
\<close>

theorem slice_assignment_commits_all_or_nothing:
  assumes "kind t = KSlice e"
    and "indirectSetter addr t v = None" and "indirectTextUnmarshaler addr t v = None"
    and "value \<noteq> Decoder.NilValue dec" and "value \<noteq> Decoder.EmptyValue dec"
  shows "(readStringTo F dec addr t v value = Done (v', None) \<longrightarrow>
           (\<exists>xs. v' = VSlice (Some xs) \<and> length xs = length (Split value (CHR '','')) \<and>
              (\<forall>i<length xs. readStringTo F dec True e (zero F e) (Split value (CHR '','') ! i)
                                = Done (xs ! i, None))))
       \<and> (readStringTo F dec addr t v value = Done (v', Some er) \<longrightarrow>
           v' = v \<and>
           (\<exists>i<length (Split value (CHR '','')). \<exists>x.
              readStringTo F dec True e (zero F e) (Split value (CHR '','') ! i) = Done (x, Some er)))
       \<and> ((\<exists>i<length (Split value (CHR '','')). \<exists>x er'.
              readStringTo F dec True e (zero F e) (Split value (CHR '','') ! i) = Done (x, Some er'))
            \<longrightarrow> readStringTo F dec addr t v value \<noteq> Done (v', None))"
proof (intro conjI impI)
  assume ok: "readStringTo F dec addr t v value = Done (v', None)"
  then obtain xs where el: "readElems F dec e (Split value (CHR '','')) = Done (Inr xs)"
    and v': "v' = VSlice (Some xs)"
    by (auto simp: readStringTo_slice [OF assms] split: res.splits sum.splits if_splits)
  from readElems_all [OF el] v'
  show "\<exists>xs. v' = VSlice (Some xs) \<and> length xs = length (Split value (CHR '','')) \<and>
              (\<forall>i<length xs. readStringTo F dec True e (zero F e) (Split value (CHR '','') ! i)
                                = Done (xs ! i, None))"
    by auto
next
  assume bad: "readStringTo F dec addr t v value = Done (v', Some er)"
  then have el: "readElems F dec e (Split value (CHR '','')) = Done (Inl er)" and v': "v' = v"
    by (auto simp: readStringTo_slice [OF assms] split: res.splits sum.splits if_splits)
  from v' show "v' = v" .
  from readElems_first_failure [OF el]
  show "\<exists>i<length (Split value (CHR '','')). \<exists>x.
              readStringTo F dec True e (zero F e) (Split value (CHR '','') ! i) = Done (x, Some er)" .
next
  assume "\<exists>i<length (Split value (CHR '','')). \<exists>x er'.
              readStringTo F dec True e (zero F e) (Split value (CHR '','') ! i) = Done (x, Some er')"
  then obtain i x er' where i: "i < length (Split value (CHR '',''))"
    and f: "readStringTo F dec True e (zero F e) (Split value (CHR '','') ! i) = Done (x, Some er')"
    by blast
  show "readStringTo F dec addr t v value \<noteq> Done (v', None)"
  proof
    assume "readStringTo F dec addr t v value = Done (v', None)"
    then obtain xs where "readElems F dec e (Split value (CHR '','')) = Done (Inr xs)"
      by (auto simp: readStringTo_slice [OF assms] split: res.splits sum.splits if_splits)
    from readElems_all [OF this] i f show False by auto
  qed
qed

definition intSlice :: "'f gotype" where
  "intSlice = plain (KSlice (plain KInt))"

theorem slice_assignment_commits_all_or_nothing_witness:
  "kind intSlice = KSlice (plain KInt)
   \<and> indirectSetter True intSlice (VSlice (Some [VInt 1])) = None
   \<and> indirectTextUnmarshaler True intSlice (VSlice (Some [VInt 1])) = None
   \<and> ''23,24'' \<noteq> Decoder.NilValue (defaultDecoder []) \<and> ''23,24'' \<noteq> Decoder.EmptyValue (defaultDecoder [])
   \<and> ''23,x'' \<noteq> Decoder.NilValue (defaultDecoder []) \<and> ''23,x'' \<noteq> Decoder.EmptyValue (defaultDecoder [])
   \<and> readStringTo wholeFloats (defaultDecoder []) True intSlice (VSlice (Some [VInt 1])) ''23,24''
       = Done (VSlice (Some [VInt 23, VInt 24]), None)
   \<and> Split ''23,24'' (CHR '','') = [''23'', ''24'']
   \<and> readStringTo wholeFloats (defaultDecoder []) True (plain KInt) (VInt 0) ''24'' = Done (VInt 24, None)
   \<and> readStringTo wholeFloats (defaultDecoder []) True intSlice (VSlice (Some [VInt 1])) ''23,x''
       = Done (VSlice (Some [VInt 1]), Some (NumError ''ParseInt'' ''x'' ErrSyntax))
   \<and> readStringTo wholeFloats (defaultDecoder []) True (plain KInt) (VInt 0) ''x''
       = Done (VInt 0, Some (NumError ''ParseInt'' ''x'' ErrSyntax))"
  using slice_assignment_commits_all_or_nothing [of intSlice "plain KInt" True "VSlice (Some [VInt 1])"
      "''23,24''" "defaultDecoder []" wholeFloats "VSlice (Some [VInt 23, VInt 24])"]
    slice_assignment_commits_all_or_nothing [of intSlice "plain KInt" True "VSlice (Some [VInt 1])"
      "''23,x''" "defaultDecoder []" wholeFloats "VSlice (Some [VInt 1])" "NumError ''ParseInt'' ''x'' ErrSyntax"]
  by (simp add: decode_eval defaultDecoder_def intSlice_def)

section \<open>Round trip of the scalar kinds\<close>

subsection \<open>ParseInt reads back what FormatInt writes\<close>










subsection \<open>Encoding a scalar and decoding its cell\<close>


lemma isPtr_kind: "isPtr t = (\<exists>e. kind t = KPtr e)"
  by (cases t; cases "kind t") auto

lemma no_hooks:
  assumes "methods t = noHooks" "\<not> isPtr t"
  shows "indirectGetter addr t v = None" "indirectTextMarshaler addr t v = None"
    "indirectSetter addr t v = None" "indirectTextUnmarshaler addr t v = None"
proof -
  have own: "lookupMethod sel t = None" if "sel noHooks = None" for sel :: "'a hooks \<Rightarrow> (recv \<times> 'm) option"
    using assms that by (simp add: lookupMethod_def kind_not_ptr)
  have ptr: "lookupMethod sel (ptrTo t) = None" if "sel noHooks = None" for sel :: "'a hooks \<Rightarrow> (recv \<times> 'm) option"
    using assms that by (simp add: lookupMethod_def ptrTo_def plain_def)
  have sel: "GetCSV (noHooks :: 'a hooks) = None" "MarshalText (noHooks :: 'a hooks) = None"
    "SetCSV (noHooks :: 'a hooks) = None" "UnmarshalText (noHooks :: 'a hooks) = None"
    by (simp_all add: noHooks_def)
  show "indirectGetter addr t v = None" "indirectTextMarshaler addr t v = None"
    "indirectSetter addr t v = None" "indirectTextUnmarshaler addr t v = None"
    by (simp_all add: indirectGetter_def indirectTextMarshaler_def indirectSetter_def
        indirectTextUnmarshaler_def indirect_def own ptr sel)
qed

lemma marshal_plain:
  assumes "methods t = noHooks" "\<not> isPtr t"
  shows "marshal F enc False addr t x False = marshalValue F enc addr t x False"
  using assms by (simp add: marshal.simps no_hooks kind_not_ptr)


text \<open>
  The cell of a scalar: \<open>true\<close> or \<open>false\<close> for a boolean, FormatInt in base 10 for
  an integer, and for a float of either width the text that FormatFloat gives for the
  format \<open>f\<close>, the precision \<open>-1\<close> and the bit size 64.
\<close>

lemma scalar_cell_formats:
  assumes "methods t = noHooks"
  shows "kind t = KBool \<Longrightarrow>
           marshal F enc False addr t (VBool b) False = Done (Inr [if b then ''true'' else ''false''])"
    and "kind t = KInt \<or> kind t = KInt8 \<or> kind t = KInt16 \<or> kind t = KInt32 \<or> kind t = KInt64 \<Longrightarrow>
           marshal F enc False addr t (VInt i) False = Done (Inr [FormatInt i 10])"
    and "kind t = KFloat32 \<or> kind t = KFloat64 \<Longrightarrow>
           marshal F enc False addr t (VFloat x) False
             = Done (Inr [FormatFloat F x (CHR ''f'') (- 1) 64])"
  using assms
  by (auto simp: marshal_plain isPtr_kind marshalValue.simps FormatBool_def)






section \<open>Where errors are wrapped\<close>

subsection \<open>The encoder wraps at each struct, slice and map\<close>

lemma marshalStruct_wraps:
  "marshalStruct F enc addr fs vs = Done (Inl er) \<Longrightarrow>
     \<exists>i e' om. i < length fs \<and> i < length vs \<and>
        er = StructFieldErr (Name (fs ! i)) (vs ! i) e' \<and>
        marshal F enc (PkgPath (fs ! i) \<noteq> []) addr (ftype (fs ! i)) (vs ! i) om = Done (Inl e')"
proof (induction fs arbitrary: vs)
  case Nil
  then show ?case by simp
next
  case (Cons f fs)
  from Cons.prems obtain x xs where vs: "vs = x # xs" by (cases vs) auto
  let ?om = "1 < length (Split (csvTag f) (CHR '','')) \<and> Split (csvTag f) (CHR '','') ! 1 = ''omitEmpty''"
  let ?skip = "hd (Split (csvTag f) (CHR '','')) = ''-'' \<or> (PkgPath f \<noteq> [] \<and> \<not> Anonymous f)"
  have later: ?case if "marshalStruct F enc addr fs xs = Done (Inl er)"
  proof -
    from Cons.IH [OF that] obtain i e' om where "i < length fs" "i < length xs"
      "er = StructFieldErr (Name (fs ! i)) (xs ! i) e'"
      "marshal F enc (PkgPath (fs ! i) \<noteq> []) addr (ftype (fs ! i)) (xs ! i) om = Done (Inl e')"
      by blast
    then have "Suc i < length (f # fs) \<and> Suc i < length vs \<and>
        er = StructFieldErr (Name ((f # fs) ! Suc i)) (vs ! Suc i) e' \<and>
        marshal F enc (PkgPath ((f # fs) ! Suc i) \<noteq> []) addr (ftype ((f # fs) ! Suc i)) (vs ! Suc i) om
          = Done (Inl e')"
      by (simp add: vs)
    then show ?thesis by blast
  qed
  show ?case
  proof (cases ?skip)
    case True
    with Cons.prems vs have "marshalStruct F enc addr fs xs = Done (Inl er)" by (simp add: Let_def)
    then show ?thesis by (rule later)
  next
    case False
    show ?thesis
    proof (cases "marshal F enc (PkgPath f \<noteq> []) addr (ftype f) x ?om")
      case (Panic p)
      with Cons.prems vs False show ?thesis by (simp add: Let_def)
    next
      case (Done r)
      show ?thesis
      proof (cases r)
        case (Inl e')
        with Done Cons.prems vs False have "er = StructFieldErr (Name f) x e'" by (simp add: Let_def)
        with Done Inl vs have "0 < length (f # fs) \<and> 0 < length vs \<and>
          er = StructFieldErr (Name ((f # fs) ! 0)) (vs ! 0) e' \<and>
          marshal F enc (PkgPath ((f # fs) ! 0) \<noteq> []) addr (ftype ((f # fs) ! 0)) (vs ! 0) ?om
            = Done (Inl e')" by simp
        then show ?thesis by blast
      next
        case (Inr out)
        with Done Cons.prems vs False have "marshalStruct F enc addr fs xs = Done (Inl er)"
          by (simp add: Let_def split: res.splits sum.splits)
        then show ?thesis by (rule later)
      qed
    qed
  qed
qed

lemma marshalSlice_wraps:
  "marshalSlice F enc e xs = Done (Inl er) \<Longrightarrow>
     \<exists>i e'. i < length xs \<and> er = SliceElementErr (xs ! i) e' \<and>
        marshal F enc False True e (xs ! i) False = Done (Inl e')"
proof (induction xs)
  case Nil
  then show ?case by simp
next
  case (Cons x xs)
  show ?case
  proof (cases "marshal F enc False True e x False")
    case (Panic p)
    with Cons.prems show ?thesis by simp
  next
    case (Done r)
    show ?thesis
    proof (cases r)
      case (Inl e')
      with Done Cons.prems have "er = SliceElementErr x e'" by simp
      with Done Inl have "0 < length (x # xs) \<and> er = SliceElementErr ((x # xs) ! 0) e' \<and>
        marshal F enc False True e ((x # xs) ! 0) False = Done (Inl e')" by simp
      then show ?thesis by blast
    next
      case (Inr out)
      with Done Cons.prems have "marshalSlice F enc e xs = Done (Inl er)"
        by (simp split: res.splits sum.splits)
      from Cons.IH [OF this] obtain i e' where "i < length xs" "er = SliceElementErr (xs ! i) e'"
        "marshal F enc False True e (xs ! i) False = Done (Inl e')" by blast
      then have "Suc i < length (x # xs) \<and> er = SliceElementErr ((x # xs) ! Suc i) e' \<and>
        marshal F enc False True e ((x # xs) ! Suc i) False = Done (Inl e')" by simp
      then show ?thesis by blast
    qed
  qed
qed

lemma marshalMap_wraps:
  "marshalMap F enc kt vt m = Done (Inl er) \<Longrightarrow>
     \<exists>k x e'. (k, x) \<in> set m \<and>
        ((er = MapKeyErr k e' \<and> marshal F enc False False kt k False = Done (Inl e')) \<or>
         (er = MapValueErr x e' \<and> marshal F enc False False vt x False = Done (Inl e')))"
proof (induction m)
  case Nil
  then show ?case by simp
next
  case (Cons kx m)
  obtain k x where kx: "kx = (k, x)" by (cases kx)
  have later: ?case if "marshalMap F enc kt vt m = Done (Inl er)"
    using Cons.IH [OF that] by auto
  show ?case
  proof (cases "marshal F enc False False kt k False")
    case (Panic p)
    with Cons.prems kx show ?thesis by simp
  next
    case kd: (Done r)
    show ?thesis
    proof (cases r)
      case (Inl e')
      with kd Cons.prems kx have "er = MapKeyErr k e'" by simp
      with kd Inl kx show ?thesis by auto
    next
      case kout: (Inr keyOutput)
      show ?thesis
      proof (cases "marshal F enc False False vt x False")
        case (Panic p)
        with kd kout Cons.prems kx show ?thesis by simp
      next
        case vd: (Done r')
        show ?thesis
        proof (cases r')
          case (Inl e')
          with kd kout vd Cons.prems kx have "er = MapValueErr x e'" by simp
          with vd Inl kx show ?thesis by auto
        next
          case (Inr valueOutput)
          with kd kout vd Cons.prems kx have "marshalMap F enc kt vt m = Done (Inl er)"
            by (simp split: res.splits sum.splits)
          then show ?thesis by (rule later)
        qed
      qed
    qed
  qed
qed

subsection \<open>The decoder returns the error of the leaf\<close>

text \<open>
  \<open>unwrapped er\<close>: the error is one that a leaf produces, a conversion error of strconv
  with the function and the text it was given, the error for a type the decoder has no
  case for, or the error of a hook. None of them names a field or a path.
\<close>

definition unwrapped :: "'f error \<Rightarrow> bool" where
  "unwrapped er =
     (case er of
        HookErr m \<Rightarrow> True
      | NumError fn num e \<Rightarrow> True
      | CantUnmarshal t \<Rightarrow> True
      | _ \<Rightarrow> False)"

lemma unwrapped_simps [simp]:
  "unwrapped (HookErr m)" "unwrapped (NumError fn num e)" "unwrapped (CantUnmarshal t)"
  by (simp_all add: unwrapped_def)

lemma ParseInt_error: "ParseInt s b bs = Inl er \<Longrightarrow> unwrapped er"
  by (auto simp: ParseInt_def Let_def split: if_splits prod.splits)

lemma ParseBool_error: "ParseBool s = Inl er \<Longrightarrow> unwrapped er"
  by (auto simp: ParseBool_def split: if_splits)

lemma readStringTo_unwrapped:
  "readStringTo F dec addr t v value = Done (v', Some er) \<Longrightarrow> unwrapped er"
  "readStringToValue F dec addr t v value = Done (v', Some er) \<Longrightarrow> unwrapped er"
  "readElems F dec e values = Done (Inl er) \<Longrightarrow> unwrapped er"
proof (induction F dec addr t v "value" and F dec addr t v "value" and F dec e "values"
    arbitrary: v' er and v' er and er rule: readStringTo_readStringToValue_readElems.induct)
  case (1 F dec addr t v "value")
  then show ?case
    by (auto simp: readStringTo.simps [of F dec addr t v "value"] split: if_splits gokind.splits res.splits)
next
  case (2 F dec addr t v "value")
  then show ?case
    by (auto simp: readStringToValue.simps [of F dec addr t v "value"] Let_def
        split: if_splits option.splits gokind.splits res.splits sum.splits
        dest: ParseInt_error ParseBool_error)
next
  case (3 F dec e)
  then show ?case by simp
next
  case (4 F dec e "value" "values")
  then show ?case
    by (auto split: res.splits option.splits sum.splits)
qed

lemma readStructTo_unwrapped:
  "Decoder.err dec = None \<Longrightarrow> readStructTo F dec addr t v vals = Done (v', Some er) \<Longrightarrow> unwrapped er"
  "Decoder.err dec = None \<Longrightarrow> readStructToValue F dec addr t v vals = Done (v', Some er) \<Longrightarrow> unwrapped er"
  "Decoder.err dec = None \<Longrightarrow> readFields F dec addr fs vs vals = Done (vs', Some er) \<Longrightarrow> unwrapped er"
  "Decoder.err dec = None \<Longrightarrow> readCellValuesTo F dec addr t v vals = Done (v', Some er) \<Longrightarrow> unwrapped er"
  "Decoder.err dec = None \<Longrightarrow> readCellValuesToValue F dec addr t v vals = Done (v', Some er) \<Longrightarrow> unwrapped er"
proof (induction F dec addr t v vals and F dec addr t v vals and F dec addr fs vs vals
    and F dec addr t v vals and F dec addr t v vals
    arbitrary: v' er and v' er and vs' er and v' er and v' er
    rule: readStructTo_readStructToValue_readFields_readCellValuesTo_readCellValuesToValue.induct)
  case (1 F dec addr t v vals)
  then show ?case
    by (auto simp: readStructTo.simps [of F dec addr t v vals]
        split: gokind.splits val.splits option.splits res.splits)
next
  case (2 F dec addr t v vals)
  then show ?case
    by (auto simp: readStructToValue.simps [of F dec addr t v vals]
        split: gokind.splits val.splits res.splits)
next
  case (3 F dec addr vs vals)
  then show ?case by simp
next
  case (4 F dec addr fieldType fs vals)
  then show ?case by simp
next
  case (5 F dec addr fieldType fs fieldValue vs vals)
  then show ?case
    by (auto simp: Let_def split: if_splits res.splits option.splits cell.splits
        dest: readStringTo_unwrapped(1))
next
  case (6 F dec addr t v vals)
  then show ?case
    by (auto simp: readCellValuesTo.simps [of F dec addr t v vals]
        split: gokind.splits if_splits res.splits)
next
  case (7 F dec addr t v vals)
  then show ?case
    by (auto simp: readCellValuesToValue.simps [of F dec addr t v vals]
        split: gokind.splits res.splits option.splits)
qed

text \<open>A row with a nested struct: the field \<open>Person\<close> has one field \<open>Age\<close>, an int.\<close>

definition ageRow :: "'f gotype" where
  "ageRow = plain (KStruct [Field ''Person'' [] [] False
     (Type ''personStruct'' noHooks (KStruct [Field ''Age'' [] [] False (plain KInt)]))])"

text \<open>
  C4, as claimed: every level wraps the error of the level below with the field and the
  value, on decode as on encode. Decoding the cell \<open>abc\<close> for the header
  \<open>person.age\<close> returns the error of strconv.ParseInt as the leaf assignment of the int
  produced it, with no mention of \<open>Person\<close> or \<open>Age\<close>.
\<close>

theorem decode_error_names_no_field:
  "Decode wholeFloats (defaultDecoder [''person.age'']) [([''abc''], None)]
     (Some (ptrTo ageRow, VPtr (Some (VStruct [VStruct [VInt 0]]))))
   = Done (Some (NumError ''ParseInt'' ''abc'' ErrSyntax),
           (defaultDecoder [''person.age''])\<lparr>Decoder.err := Some (NumError ''ParseInt'' ''abc'' ErrSyntax)\<rparr>,
           [], Some (ptrTo ageRow, VPtr (Some (VStruct [VStruct [VInt 0]]))))
   \<and> readStringTo wholeFloats (defaultDecoder [''person.age'']) True (plain KInt) (VInt 0) ''abc''
     = Done (VInt 0, Some (NumError ''ParseInt'' ''abc'' ErrSyntax))"
  by (simp add: decode_eval defaultDecoder_def ageRow_def)


text \<open>
  C4, amended. On encode, the struct, slice and map cases of marshal wrap the error of a
  field, element, key or value with its name or role and the value that failed. On
  decode nothing is added: an error that Decode returns from populating its target is the
  error of a leaf.
\<close>

theorem errors_wrapped_by_encode_only:
  "(kind t1 = KStruct fs \<and> marshalValue F enc addr1 t1 (VStruct vs) om1 = Done (Inl er1) \<longrightarrow>
      (\<exists>i e' om. i < length fs \<and> i < length vs \<and>
         er1 = StructFieldErr (Name (fs ! i)) (vs ! i) e' \<and>
         marshal F enc (PkgPath (fs ! i) \<noteq> []) addr1 (ftype (fs ! i)) (vs ! i) om = Done (Inl e')))
   \<and> (kind t2 = KSlice e \<and> marshalValue F enc addr2 t2 (VSlice sl) om2 = Done (Inl er2) \<longrightarrow>
      (\<exists>xs i e'. sl = Some xs \<and> i < length xs \<and> er2 = SliceElementErr (xs ! i) e' \<and>
         marshal F enc False True e (xs ! i) False = Done (Inl e')))
   \<and> (kind t3 = KMap kt vt \<and> marshalValue F enc addr3 t3 (VMap mp) om3 = Done (Inl er3) \<longrightarrow>
      (\<exists>m k x e'. mp = Some m \<and> (k, x) \<in> set m \<and>
         ((er3 = MapKeyErr k e' \<and> marshal F enc False False kt k False = Done (Inl e')) \<or>
          (er3 = MapValueErr x e' \<and> marshal F enc False False vt x False = Done (Inl e')))))
   \<and> (Decoder.err dec = None \<and> Read rd = ((row, None), rd') \<and>
       Decode F dec rd i = Done (Some er4, dec', rd'', i') \<longrightarrow> unwrapped er4)"
proof (intro conjI impI)
  assume "kind t1 = KStruct fs \<and> marshalValue F enc addr1 t1 (VStruct vs) om1 = Done (Inl er1)"
  then have "marshalStruct F enc addr1 fs vs = Done (Inl er1)"
    by (auto simp: marshalValue.simps [of F enc addr1 t1] split: if_splits)
  then show "\<exists>i e' om. i < length fs \<and> i < length vs \<and>
         er1 = StructFieldErr (Name (fs ! i)) (vs ! i) e' \<and>
         marshal F enc (PkgPath (fs ! i) \<noteq> []) addr1 (ftype (fs ! i)) (vs ! i) om = Done (Inl e')"
    by (rule marshalStruct_wraps)
next
  assume "kind t2 = KSlice e \<and> marshalValue F enc addr2 t2 (VSlice sl) om2 = Done (Inl er2)"
  then have loop: "marshalSlice F enc e (case sl of None \<Rightarrow> [] | Some l \<Rightarrow> l) = Done (Inl er2)"
    by (auto simp: marshalValue.simps [of F enc addr2 t2] split: if_splits res.splits sum.splits)
  then obtain xs where sl: "sl = Some xs" by (cases sl) auto
  from marshalSlice_wraps [of F enc e xs er2] loop sl
  show "\<exists>xs i e'. sl = Some xs \<and> i < length xs \<and> er2 = SliceElementErr (xs ! i) e' \<and>
         marshal F enc False True e (xs ! i) False = Done (Inl e')"
    by auto
next
  assume "kind t3 = KMap kt vt \<and> marshalValue F enc addr3 t3 (VMap mp) om3 = Done (Inl er3)"
  then have loop: "marshalMap F enc kt vt (case mp of None \<Rightarrow> [] | Some l \<Rightarrow> l) = Done (Inl er3)"
    by (auto simp: marshalValue.simps [of F enc addr3 t3] split: if_splits res.splits sum.splits)
  then obtain m where mp: "mp = Some m" by (cases mp) auto
  from marshalMap_wraps [of F enc kt vt m er3] loop mp
  show "\<exists>m k x e'. mp = Some m \<and> (k, x) \<in> set m \<and>
         ((er3 = MapKeyErr k e' \<and> marshal F enc False False kt k False = Done (Inl e')) \<or>
          (er3 = MapValueErr x e' \<and> marshal F enc False False vt x False = Done (Inl e')))"
    by auto
next
  assume a: "Decoder.err dec = None \<and> Read rd = ((row, None), rd') \<and>
       Decode F dec rd i = Done (Some er4, dec', rd'', i')"
  let ?dec1 = "dec\<lparr>Decoder.err := None\<rparr>"
  have none: "Decoder.err ?dec1 = None" by simp
  from a obtain t v m v' where "readStructTo F ?dec1 False t v m = Done (v', Some er4)"
    by (auto simp: Decode_def Let_def split: res.splits option.splits prod.splits)
  from readStructTo_unwrapped(1) [OF none this] show "unwrapped er4" .
qed


theorem errors_wrapped_by_encode_only_witness:
  "kind (unsupportedRow :: int gotype) = KStruct [Field ''C'' [] [] False (plain KOther)]
   \<and> marshalValue wholeFloats NewEncoder False unsupportedRow (VStruct [VOther 1]) False
       = Done (Inl (StructFieldErr ''C'' (VOther 1) (CantMarshal (VOther 1) (plain KOther))))
   \<and> marshalValue wholeFloats NewEncoder False (plain (KSlice (plain KOther))) (VSlice (Some [VOther 1])) False
       = Done (Inl (SliceElementErr (VOther 1) (CantMarshal (VOther 1) (plain KOther))))
   \<and> marshalValue wholeFloats NewEncoder False (plain (KMap (plain KString) (plain KOther)))
         (VMap (Some [(VStr ''k'', VOther 1)])) False
       = Done (Inl (MapValueErr (VOther 1) (CantMarshal (VOther 1) (plain KOther))))
   \<and> marshal wholeFloats NewEncoder False False (plain KOther) (VOther 1) False
       = Done (Inl (CantMarshal (VOther 1) (plain KOther)))
   \<and> Decoder.err (defaultDecoder [''person.age''] :: int Decoder) = None
   \<and> Read [([''abc''], None :: int error option)] = (([''abc''], None), [])
   \<and> Decode wholeFloats (defaultDecoder [''person.age'']) [([''abc''], None)]
        (Some (ptrTo ageRow, VPtr (Some (VStruct [VStruct [VInt 0]]))))
      = Done (Some (NumError ''ParseInt'' ''abc'' ErrSyntax),
           (defaultDecoder [''person.age''])\<lparr>Decoder.err := Some (NumError ''ParseInt'' ''abc'' ErrSyntax)\<rparr>,
           [], Some (ptrTo ageRow, VPtr (Some (VStruct [VStruct [VInt 0]]))))
   \<and> unwrapped (NumError ''ParseInt'' ''abc'' ErrSyntax :: int error)"
  using errors_wrapped_by_encode_only [of unsupportedRow "[Field ''C'' [] [] False (plain KOther)]"
      wholeFloats NewEncoder False "[VOther 1]" False
      "StructFieldErr ''C'' (VOther 1) (CantMarshal (VOther 1) (plain KOther))"
      "plain (KSlice (plain KOther))" "plain KOther" False "Some [VOther 1]" False
      "SliceElementErr (VOther 1) (CantMarshal (VOther 1) (plain KOther))"
      "plain (KMap (plain KString) (plain KOther))" "plain KString" "plain KOther" False
      "Some [(VStr ''k'', VOther 1)]" False
      "MapValueErr (VOther 1) (CantMarshal (VOther 1) (plain KOther))"
      "defaultDecoder [''person.age'']" "[([''abc''], None)]" "[''abc'']" "[]"
      "Some (ptrTo ageRow, VPtr (Some (VStruct [VStruct [VInt 0]])))"
      "NumError ''ParseInt'' ''abc'' ErrSyntax"
      "(defaultDecoder [''person.age''])\<lparr>Decoder.err := Some (NumError ''ParseInt'' ''abc'' ErrSyntax)\<rparr>"
      "[]" "Some (ptrTo ageRow, VPtr (Some (VStruct [VStruct [VInt 0]])))"]
  by (simp add: encode_eval decode_eval defaultDecoder_def ageRow_def unsupportedRow_def)

section \<open>Precedence of the hooks\<close>












section \<open>The target of Decode\<close>









end
